theory Spec2Isabelle
  imports Complex_Main
begin

section \<open>Numbers and built-ins of the host language\<close>

text \<open>
  The program is JavaScript. Its numbers are modelled as exact reals (integers where the
  source only ever holds integers), so every statement below is about the arithmetic the
  source writes down, not about the rounding of binary floating point.
  \<^item> \<open>x % y\<close> is the truncated remainder: the result has the sign of the dividend.
  \<^item> \<open>xs[i]\<close> beyond the end of an array is \<open>undefined\<close>, here \<open>None\<close>.
  \<^item> \<open>a || b\<close> takes \<open>b\<close> when \<open>a\<close> is falsy (undefined, the empty string, zero);
    \<open>a ?? b\<close> takes \<open>b\<close> only when \<open>a\<close> is undefined or null.
\<close>

definition js_trunc :: "real \<Rightarrow> int" where
  "js_trunc x = (if 0 \<le> x then \<lfloor>x\<rfloor> else \<lceil>x\<rceil>)"

definition js_rem :: "real \<Rightarrow> real \<Rightarrow> real" where
  "js_rem x y = x - y * of_int (js_trunc (x / y))"

definition js_index :: "'a list \<Rightarrow> nat \<Rightarrow> 'a option" where
  "js_index xs i = (if i < length xs then Some (xs ! i) else None)"

definition or_string :: "string option \<Rightarrow> string \<Rightarrow> string" where
  "or_string a b = (case a of None \<Rightarrow> b | Some s \<Rightarrow> if s = [] then b else s)"

definition or_number :: "real option \<Rightarrow> real \<Rightarrow> real" where
  "or_number a b = (case a of None \<Rightarrow> b | Some x \<Rightarrow> if x = 0 then b else x)"

definition nullish :: "'a option \<Rightarrow> 'a \<Rightarrow> 'a" where
  "nullish a b = (case a of None \<Rightarrow> b | Some x \<Rightarrow> x)"

section \<open>Constants of the renderer\<close>

definition DEFAULT_LAYER_COLORS :: "string list" where
  "DEFAULT_LAYER_COLORS =
     [''#7c7cff'', ''#3b82f6'', ''#a855f7'', ''#22d3ee'', ''#f472b6'', ''#34d399'']"

record orbit =
  phaseX :: real
  phaseY :: real
  dirX :: real
  dirY :: real

definition LAYER_ORBITS :: "orbit list" where
  "LAYER_ORBITS =
     [\<lparr>phaseX = 0.0, phaseY = 0.3, dirX = 1, dirY = 1\<rparr>,
      \<lparr>phaseX = 0.5, phaseY = 0.8, dirX = -1, dirY = 1\<rparr>,
      \<lparr>phaseX = 0.2, phaseY = 0.6, dirX = 1, dirY = -1\<rparr>,
      \<lparr>phaseX = 0.7, phaseY = 0.1, dirX = -1, dirY = -1\<rparr>,
      \<lparr>phaseX = 0.4, phaseY = 0.9, dirX = 1, dirY = -1\<rparr>,
      \<lparr>phaseX = 0.9, phaseY = 0.4, dirX = -1, dirY = 1\<rparr>]"

section \<open>Blob outlines\<close>

text \<open>
  \<open>seededRandom(seed)\<close> returns a closure over the local variable \<open>s\<close>. The closure is
  modelled by its state: \<open>rng_next\<close> is one call, returning the new \<open>s\<close> and the
  number handed out. The seeds of the program are non-negative integers, on which
  \<open>%\<close> is \<open>mod\<close>.
\<close>

definition seededRandom :: "nat \<Rightarrow> nat" where
  "seededRandom seed = seed"

definition rng_next :: "nat \<Rightarrow> nat \<times> real" where
  "rng_next s = (let s' = (s * 16807 + 0) mod 2147483647
                 in (s', (real s' - 1) / 2147483646))"

record blob_point =
  angle :: real
  radius :: real

function pointsLoop :: "nat \<Rightarrow> nat \<Rightarrow> nat \<Rightarrow> blob_point list \<Rightarrow> blob_point list" where
  "pointsLoop pointCount j s points =
     (if j < pointCount
      then (let (s', r) = rng_next s
            in pointsLoop pointCount (Suc j) s'
                 (points @ [\<lparr>angle = (real j / real pointCount) * pi * 2,
                             radius = 0.6 + r * 0.4\<rparr>]))
      else points)"
  by pat_completeness auto
termination
  by (relation "measure (\<lambda>(pointCount, j, s, points). pointCount - j)") auto

definition buildRandomBlobPoints :: "nat \<Rightarrow> blob_point list" where
  "buildRandomBlobPoints layerIndex =
     (let (s, r) = rng_next (seededRandom (layerIndex * 7919 + 1301));
          pointCount = nat (5 + \<lfloor>r * 4\<rfloor>)
      in pointsLoop pointCount 0 s [])"

definition BLOB_POINTS :: "blob_point list list" where
  "BLOB_POINTS = map buildRandomBlobPoints [0..<6]"

section \<open>Motion functions\<close>

text \<open>The source's parameter \<open>range\<close> is written \<open>motionRange\<close>, as in its comment.\<close>

record offset =
  offsetX :: real
  offsetY :: real

definition motionLissajous :: "real \<Rightarrow> orbit \<Rightarrow> real \<Rightarrow> offset" where
  "motionLissajous t orb motionRange =
     \<lparr>offsetX = sin ((t + phaseX orb) * pi * 2) * dirX orb * motionRange,
      offsetY = sin ((t + phaseY orb) * pi * 2) * dirY orb * motionRange\<rparr>"

definition motionOrbit :: "real \<Rightarrow> orbit \<Rightarrow> real \<Rightarrow> offset" where
  "motionOrbit t orb motionRange =
     (let ang = (t + phaseX orb) * pi * 2
      in \<lparr>offsetX = cos ang * motionRange * dirX orb,
          offsetY = sin ang * motionRange * dirY orb\<rparr>)"

definition motionDrift :: "real \<Rightarrow> orbit \<Rightarrow> real \<Rightarrow> offset" where
  "motionDrift t orb motionRange =
     (let drift = (js_rem (t * dirX orb + phaseX orb) 1) * motionRange * 2 - motionRange;
          sway = sin ((t + phaseY orb) * pi * 2) * motionRange * 0.2
      in \<lparr>offsetX = drift, offsetY = sway\<rparr>)"

definition motionBreathe :: "real \<Rightarrow> orbit \<Rightarrow> real \<Rightarrow> offset" where
  "motionBreathe t orb motionRange = \<lparr>offsetX = 0, offsetY = 0\<rparr>"

definition motionWave :: "real \<Rightarrow> orbit \<Rightarrow> real \<Rightarrow> offset" where
  "motionWave t orb motionRange =
     (let waveX = sin ((t + phaseX orb) * pi * 2) * motionRange;
          waveY = sin ((t * 2 + phaseY orb) * pi * 2) * motionRange * 0.25
      in \<lparr>offsetX = waveX * dirX orb, offsetY = waveY\<rparr>)"

definition getMotionOffset :: "string \<Rightarrow> real \<Rightarrow> orbit \<Rightarrow> real \<Rightarrow> offset" where
  "getMotionOffset type t orb motionRange =
     (if type = ''orbit'' then motionOrbit t orb motionRange
      else if type = ''drift'' then motionDrift t orb motionRange
      else if type = ''breathe'' then motionBreathe t orb motionRange
      else if type = ''wave'' then motionWave t orb motionRange
      else motionLissajous t orb motionRange)"

section \<open>The drawing surface\<close>

text \<open>
  The 2D context is an object of the browser. It is modelled as a record of the properties
  the program assigns (composite operation, fill style, alpha, transform), the stack of
  \<open>save\<close>/\<open>restore\<close>, the current path, and the list of drawing operations
  performed so far, each with the drawing state in force when it was performed. That list
  is the observable output of a frame. Property assignments and calls are taken as
  written: the browser's validation of the values it is given (an assignment it ignores,
  a colour stop it cannot parse, a negative radius) is not part of the program.
\<close>

record gradient =
  x0 :: real
  y0 :: real
  r0 :: real
  x1 :: real
  y1 :: real
  r1 :: real
  stops :: "(real \<times> string) list"

datatype fill_style = Color string | Gradient gradient

type_synonym matrix = "real \<times> real \<times> real \<times> real \<times> real \<times> real"

type_synonym drawing_state = "string \<times> fill_style \<times> real \<times> matrix"

datatype path_seg =
    MoveTo real real
  | QuadraticCurveTo real real real real
  | ClosePath

datatype draw_op =
    FillRect real real real real
  | Fill "(path_seg \<times> matrix) list"

record context2d =
  globalCompositeOperation :: string
  fillStyle :: fill_style
  globalAlpha :: real
  transform :: matrix
  stack :: "drawing_state list"
  path :: "(path_seg \<times> matrix) list"
  drawn :: "(draw_op \<times> drawing_state) list"

definition state_of :: "context2d \<Rightarrow> drawing_state" where
  "state_of c = (globalCompositeOperation c, fillStyle c, globalAlpha c, transform c)"

definition save :: "context2d \<Rightarrow> context2d" where
  "save c = c\<lparr>stack := state_of c # stack c\<rparr>"

definition restore :: "context2d \<Rightarrow> context2d" where
  "restore c =
     (case stack c of
        [] \<Rightarrow> c
      | (g, f, a, m) # rest \<Rightarrow>
          c\<lparr>globalCompositeOperation := g, fillStyle := f, globalAlpha := a,
            transform := m, stack := rest\<rparr>)"

definition translate :: "real \<Rightarrow> real \<Rightarrow> context2d \<Rightarrow> context2d" where
  "translate tx ty c =
     (case transform c of (a, b, c', d, e, f) \<Rightarrow>
        c\<lparr>transform := (a, b, c', d, a * tx + c' * ty + e, b * tx + d * ty + f)\<rparr>)"

definition scale :: "real \<Rightarrow> real \<Rightarrow> context2d \<Rightarrow> context2d" where
  "scale sx sy c =
     (case transform c of (a, b, c', d, e, f) \<Rightarrow>
        c\<lparr>transform := (a * sx, b * sx, c' * sy, d * sy, e, f)\<rparr>)"

definition createRadialGradient ::
  "real \<Rightarrow> real \<Rightarrow> real \<Rightarrow> real \<Rightarrow> real \<Rightarrow> real \<Rightarrow> gradient" where
  "createRadialGradient a b r a' b' r' =
     \<lparr>x0 = a, y0 = b, r0 = r, x1 = a', y1 = b', r1 = r', stops = []\<rparr>"

definition addColorStop :: "real \<Rightarrow> string \<Rightarrow> gradient \<Rightarrow> gradient" where
  "addColorStop off col g = g\<lparr>stops := stops g @ [(off, col)]\<rparr>"

definition fillRect :: "real \<Rightarrow> real \<Rightarrow> real \<Rightarrow> real \<Rightarrow> context2d \<Rightarrow> context2d" where
  "fillRect x y w h c = c\<lparr>drawn := drawn c @ [(FillRect x y w h, state_of c)]\<rparr>"

definition beginPath :: "context2d \<Rightarrow> context2d" where
  "beginPath c = c\<lparr>path := []\<rparr>"

definition moveTo :: "real \<Rightarrow> real \<Rightarrow> context2d \<Rightarrow> context2d" where
  "moveTo x y c = c\<lparr>path := path c @ [(MoveTo x y, transform c)]\<rparr>"

definition quadraticCurveTo ::
  "real \<Rightarrow> real \<Rightarrow> real \<Rightarrow> real \<Rightarrow> context2d \<Rightarrow> context2d" where
  "quadraticCurveTo cpx cpy x y c =
     c\<lparr>path := path c @ [(QuadraticCurveTo cpx cpy x y, transform c)]\<rparr>"

definition closePath :: "context2d \<Rightarrow> context2d" where
  "closePath c = c\<lparr>path := path c @ [(ClosePath, transform c)]\<rparr>"

definition fill :: "context2d \<Rightarrow> context2d" where
  "fill c = c\<lparr>drawn := drawn c @ [(Fill (path c), state_of c)]\<rparr>"

section \<open>Shape drawing\<close>

definition drawCircle ::
  "context2d \<Rightarrow> real \<Rightarrow> real \<Rightarrow> real \<Rightarrow> string \<Rightarrow> real \<Rightarrow> context2d" where
  "drawCircle c cx cy blobRadius color opacity =
     (let c1 = save c;
          c2 = c1\<lparr>globalAlpha := opacity\<rparr>;
          grad = createRadialGradient cx cy 0 cx cy blobRadius;
          grad = addColorStop 0 color grad;
          grad = addColorStop 0.55 (color @ ''40'') grad;
          grad = addColorStop 1 ''transparent'' grad;
          c3 = c2\<lparr>fillStyle := Gradient grad\<rparr>;
          c4 = fillRect (cx - blobRadius) (cy - blobRadius) (blobRadius * 2) (blobRadius * 2) c3
      in restore c4)"

definition drawEllipse ::
  "context2d \<Rightarrow> real \<Rightarrow> real \<Rightarrow> real \<Rightarrow> string \<Rightarrow> real \<Rightarrow> nat \<Rightarrow> context2d" where
  "drawEllipse c cx cy blobRadius color opacity layerIndex =
     (let aspect = 0.5 + real (layerIndex mod 3) * 0.25;
          c1 = save c;
          c2 = c1\<lparr>globalAlpha := opacity\<rparr>;
          c3 = translate cx cy c2;
          c4 = scale 1 aspect c3;
          grad = createRadialGradient 0 0 0 0 0 blobRadius;
          grad = addColorStop 0 color grad;
          grad = addColorStop 0.55 (color @ ''40'') grad;
          grad = addColorStop 1 ''transparent'' grad;
          c5 = c4\<lparr>fillStyle := Gradient grad\<rparr>;
          c6 = fillRect (- blobRadius) (- blobRadius) (blobRadius * 2) (blobRadius * 2) c5
      in restore c6)"

definition drawRing ::
  "context2d \<Rightarrow> real \<Rightarrow> real \<Rightarrow> real \<Rightarrow> string \<Rightarrow> real \<Rightarrow> context2d" where
  "drawRing c cx cy blobRadius color opacity =
     (let c1 = save c;
          c2 = c1\<lparr>globalAlpha := opacity\<rparr>;
          innerR = blobRadius * 0.35;
          grad = createRadialGradient cx cy innerR cx cy blobRadius;
          grad = addColorStop 0 ''transparent'' grad;
          grad = addColorStop 0.2 (color @ ''60'') grad;
          grad = addColorStop 0.5 color grad;
          grad = addColorStop 0.75 (color @ ''40'') grad;
          grad = addColorStop 1 ''transparent'' grad;
          c3 = c2\<lparr>fillStyle := Gradient grad\<rparr>;
          c4 = fillRect (cx - blobRadius) (cy - blobRadius) (blobRadius * 2) (blobRadius * 2) c3
      in restore c4)"

text \<open>One iteration of the path loop of \<open>drawBlob\<close>, for the index \<open>j\<close>.\<close>

definition blobSegment ::
  "blob_point list \<Rightarrow> real \<Rightarrow> real \<Rightarrow> real \<Rightarrow> nat \<Rightarrow> context2d \<Rightarrow> context2d" where
  "blobSegment points cx cy blobRadius j c =
     (let len = length points;
          curr = points ! j;
          next = points ! ((j + 1) mod len);
          r1 = radius curr * blobRadius;
          r2 = radius next * blobRadius;
          x1 = cx + cos (angle curr) * r1;
          y1 = cy + sin (angle curr) * r1;
          x2 = cx + cos (angle next) * r2;
          y2 = cy + sin (angle next) * r2;
          mx = (x1 + x2) / 2;
          my = (y1 + y2) / 2;
          c1 = (if j = 0
                then (let prev = points ! (len - 1);
                          rp = radius prev * blobRadius;
                          xp = cx + cos (angle prev) * rp;
                          yp = cy + sin (angle prev) * rp
                      in moveTo ((xp + x1) / 2) ((yp + y1) / 2) c)
                else c)
      in quadraticCurveTo x1 y1 mx my c1)"

definition drawBlob ::
  "context2d \<Rightarrow> real \<Rightarrow> real \<Rightarrow> real \<Rightarrow> string \<Rightarrow> real \<Rightarrow> nat \<Rightarrow> context2d" where
  "drawBlob c cx cy blobRadius color opacity layerIndex =
     (let points = BLOB_POINTS ! (layerIndex mod length BLOB_POINTS);
          c1 = save c;
          c2 = c1\<lparr>globalAlpha := opacity\<rparr>;
          c3 = beginPath c2;
          len = length points;
          c4 = fold (blobSegment points cx cy blobRadius) [0..<len] c3;
          c5 = closePath c4;
          grad = createRadialGradient cx cy 0 cx cy blobRadius;
          grad = addColorStop 0 color grad;
          grad = addColorStop 0.6 (color @ ''50'') grad;
          grad = addColorStop 1 ''transparent'' grad;
          c6 = c5\<lparr>fillStyle := Gradient grad\<rparr>;
          c7 = fill c6
      in restore c7)"

definition drawShape ::
  "string \<Rightarrow> context2d \<Rightarrow> real \<Rightarrow> real \<Rightarrow> real \<Rightarrow> string \<Rightarrow> real \<Rightarrow> nat \<Rightarrow> context2d" where
  "drawShape type c cx cy blobRadius color opacity layerIndex =
     (if type = ''ellipse'' then drawEllipse c cx cy blobRadius color opacity layerIndex
      else if type = ''ring'' then drawRing c cx cy blobRadius color opacity
      else if type = ''blob'' then drawBlob c cx cy blobRadius color opacity layerIndex
      else drawCircle c cx cy blobRadius color opacity)"

section \<open>The renderer\<close>

record settings =
  bgColor :: string
  layerCount :: nat
  layerColors :: "string list"
  layerShapes :: "string list"
  layerMotions :: "string list"
  layerCycles :: "real list"
  layerMotionRanges :: "real list"
  layerOpacities :: "real list"
  layerScaleRanges :: "real list"
  blur :: real
  blendMode :: string
  loopDuration :: "real option"

text \<open>
  \<open>loopDuration\<close> is \<open>None\<close> when the property holds no number (undefined, null, NaN),
  which \<open>||\<close> treats like zero.
\<close>

definition defaultSettings :: settings where
  "defaultSettings =
     \<lparr>bgColor = ''#050814'',
      layerCount = 4,
      layerColors = DEFAULT_LAYER_COLORS,
      layerShapes = replicate 6 ''circle'',
      layerMotions = replicate 6 ''lissajous'',
      layerCycles = [1, 2, 1, 3, 2, 1],
      layerMotionRanges = replicate 6 250,
      layerOpacities = replicate 6 0.75,
      layerScaleRanges = replicate 6 1.4,
      blur = 160,
      blendMode = ''screen'',
      loopDuration = Some 10000\<rparr>"

text \<open>
  The export session \<open>_export\<close>: the 2D context of the oversized source canvas and the
  numbers computed by \<open>initExport\<close>. The output canvas is cleared and redrawn from the
  source canvas for every frame, so a frame handed to the encoder is described by the blur
  filter, the offset of the copy and the drawing history of the source canvas.
\<close>

record export_session =
  srcCtx :: context2d
  srcWidth :: real
  srcHeight :: real
  blurPx :: int
  pad :: int
  exportWidth :: real
  exportHeight :: real

record out_frame =
  outWidth :: real
  outHeight :: real
  filterBlur :: int
  imageX :: real
  imageY :: real
  image :: "(draw_op \<times> drawing_state) list"

record renderer =
  settings :: settings
  rectWidth :: real
  rectHeight :: real
  export :: "export_session option"

definition newContext :: context2d where
  "newContext =
     \<lparr>globalCompositeOperation = ''source-over'',
      fillStyle = Color ''#000000'',
      globalAlpha = 1,
      transform = (1, 0, 0, 1, 0, 0),
      stack = [],
      path = [],
      drawn = []\<rparr>"

text \<open>The body of the layer loop of \<open>renderFrame\<close>, for the layer \<open>i\<close>.\<close>

definition renderLayer :: "settings \<Rightarrow> real \<Rightarrow> real \<Rightarrow> real \<Rightarrow> nat \<Rightarrow> context2d \<Rightarrow> context2d" where
  "renderLayer s time w h i c =
     (let orb = LAYER_ORBITS ! (i mod length LAYER_ORBITS);
          color = or_string (js_index (layerColors s) i)
                    (DEFAULT_LAYER_COLORS ! (i mod length DEFAULT_LAYER_COLORS));
          layerShape = or_string (js_index (layerShapes s) i) ''circle'';
          layerMotion = or_string (js_index (layerMotions s) i) ''lissajous'';
          layerCycles = nullish (js_index (layerCycles s) i) 1;
          layerRange = nullish (js_index (layerMotionRanges s) i) 250;
          layerOpacity = nullish (js_index (layerOpacities s) i) 0.75;
          layerScale = nullish (js_index (layerScaleRanges s) i) 1.4;
          loopMs = or_number (loopDuration s) 10000;
          t = (time / loopMs) * layerCycles;
          off = getMotionOffset layerMotion t orb layerRange;
          breatheExtra = (if layerMotion = ''breathe'' then 0.3 else 0);
          scale = 1.0 + (layerScale - 1.0 + breatheExtra)
                          * (0.5 + 0.5 * sin ((t + phaseX orb * 2) * pi * 2));
          baseCx = w * (0.2 + 0.6 * js_rem (real i * 0.618) 1);
          baseCy = h * (0.2 + 0.6 * js_rem (real i * 0.618 + 0.5) 1);
          cx = baseCx + offsetX off;
          cy = baseCy + offsetY off;
          blobRadius = max w h * 0.5 * scale
      in drawShape layerShape c cx cy blobRadius color layerOpacity i)"

text \<open>
  \<open>renderFrame(time, ctx, width, height)\<close>. The context \<open>c\<close> is the one the frame is
  drawn on (\<open>ctx || this.ctx\<close>); an omitted width or height is \<open>None\<close>.
\<close>

definition renderFrame ::
  "renderer \<Rightarrow> real \<Rightarrow> context2d \<Rightarrow> real option \<Rightarrow> real option \<Rightarrow> context2d" where
  "renderFrame r time c width height =
     (let w = or_number width (rectWidth r);
          h = or_number height (rectHeight r);
          s = settings r;
          c1 = c\<lparr>globalCompositeOperation := ''source-over''\<rparr>;
          c2 = c1\<lparr>fillStyle := Color (bgColor s)\<rparr>;
          c3 = fillRect 0 0 w h c2;
          c4 = c3\<lparr>globalCompositeOperation := blendMode s\<rparr>;
          c5 = fold (renderLayer s time w h) [0..<layerCount s] c4
      in c5\<lparr>globalCompositeOperation := ''source-over''\<rparr>)"

definition js_round :: "real \<Rightarrow> int" where
  "js_round x = \<lfloor>x + 1 / 2\<rfloor>"

definition initExport :: "renderer \<Rightarrow> real \<Rightarrow> real \<Rightarrow> renderer" where
  "initExport r exportWidth' exportHeight' =
     (let s = settings r;
          previewWidth = or_number (Some (rectWidth r)) 1920;
          ratio = exportWidth' / previewWidth;
          blurPx' = js_round (blur s * ratio);
          pad' = blurPx' * 2
      in r\<lparr>export := Some
             \<lparr>srcCtx = newContext,
              srcWidth = exportWidth' + real_of_int pad' * 2,
              srcHeight = exportHeight' + real_of_int pad' * 2,
              blurPx = blurPx',
              pad = pad',
              exportWidth = exportWidth',
              exportHeight = exportHeight'\<rparr>\<rparr>)"

text \<open>
  \<open>renderExportFrame(time)\<close> destructures \<open>this._export\<close>; without a session that is a
  TypeError, here \<open>None\<close>.
\<close>

definition renderExportFrame :: "renderer \<Rightarrow> real \<Rightarrow> (renderer \<times> out_frame) option" where
  "renderExportFrame r time =
     (case export r of
        None \<Rightarrow> None
      | Some e \<Rightarrow>
         (let s = settings r;
              c1 = (srcCtx e)\<lparr>fillStyle := Color (bgColor s)\<rparr>;
              c2 = fillRect 0 0 (srcWidth e) (srcHeight e) c1;
              c3 = save c2;
              c4 = translate (real_of_int (pad e)) (real_of_int (pad e)) c3;
              c5 = renderFrame r time c4 (Some (exportWidth e)) (Some (exportHeight e));
              c6 = restore c5
          in Some (r\<lparr>export := Some (e\<lparr>srcCtx := c6\<rparr>)\<rparr>,
                   \<lparr>outWidth = exportWidth e, outHeight = exportHeight e,
                    filterBlur = blurPx e,
                    imageX = - real_of_int (pad e), imageY = - real_of_int (pad e),
                    image = drawn c6\<rparr>)))"

definition cleanupExport :: "renderer \<Rightarrow> renderer" where
  "cleanupExport r = r\<lparr>export := None\<rparr>"

section \<open>The export pipeline\<close>

subsection \<open>Strings\<close>

fun String_nat :: "nat \<Rightarrow> string" where
  "String_nat n =
     (if n < 10 then [''0123456789'' ! n]
      else String_nat (n div 10) @ [''0123456789'' ! (n mod 10)])"

definition String_int :: "int \<Rightarrow> string" where
  "String_int k = (if k < 0 then ''-'' @ String_nat (nat (- k)) else String_nat (nat k))"

definition padStart :: "nat \<Rightarrow> char \<Rightarrow> string \<Rightarrow> string" where
  "padStart n ch s = replicate (n - length s) ch @ s"

definition frameName :: "nat \<Rightarrow> string" where
  "frameName i = ''frame_'' @ padStart 5 (CHR ''0'') (String_nat i) @ ''.png''"

subsection \<open>The encoder and the page\<close>

text \<open>
  The FFmpeg worker and the browser are outside the program. What they answer is a parameter
  of the model: whether \<open>load\<close> is acknowledged, whether the canvas of frame \<open>k\<close> can
  be turned into a blob, whether the write of frame \<open>k\<close> is acknowledged, what \<open>exec\<close>
  returns, whether the output can be read. A rejected request carries the message of the
  worker's error. A blob of \<open>null\<close> makes \<open>blob.arrayBuffer()\<close> a TypeError, whose
  message is the engine's.
\<close>

record encoder =
  load_error :: "string option"
  blob_ok :: "nat \<Rightarrow> bool"
  writeFile_error :: "nat \<Rightarrow> string option"
  exec_result :: "string + int"
  readFile_error :: "string option"
  typeErrorText :: string

text \<open>What the page's form holds when the export starts.\<close>

record export_form =
  resolutionWidth :: real
  resolutionHeight :: real
  duration :: nat
  fps :: nat

text \<open>
  Everything the coordinator does to the outside, in the order it does it. A request that
  is \<open>await\<close>ed (loading, turning the canvas into a blob and the blob into bytes, writing,
  executing, reading and deleting) suspends \<open>startExport\<close> until it is answered, so the
  next event happens after its acknowledgement.
\<close>

datatype event =
    CreateWorker
  | Load
  | InitExport real real
  | RenderExportFrame real
  | CanvasToBlob
  | ArrayBuffer
  | WriteFile string out_frame
  | CleanupExport
  | OnProgress
  | Exec "string list"
  | ReadFile string
  | Download real real nat
  | DeleteFile string
  | Terminate
  | ConsoleError string
  | HideProgressLater

text \<open>
  What a handler of the page can see and change: the export flag, the button, the progress
  display and the renderer. The state of the model adds the events so far and, for every
  point where \<open>startExport\<close> was suspended at an \<open>await\<close>, the page as it was then:
  that is what a handler running in between (a click on the button) finds.
\<close>

record page =
  isExporting :: bool
  btnDisabled :: bool
  btnText :: string
  btnDimmed :: bool
  progressHidden :: bool
  progressBarWidth :: string
  progressText :: string
  the_renderer :: renderer

record export_state = page +
  events :: "event list"
  suspensions :: "page list"

definition emit :: "event \<Rightarrow> export_state \<Rightarrow> export_state" where
  "emit e st = st\<lparr>events := events st @ [e]\<rparr>"

definition await :: "event \<Rightarrow> export_state \<Rightarrow> export_state" where
  "await e st =
     (let st1 = emit e st
      in st1\<lparr>suspensions := suspensions st1 @ [page.truncate st1]\<rparr>)"

definition updateProgress :: "nat \<Rightarrow> nat \<Rightarrow> string \<Rightarrow> export_state \<Rightarrow> export_state" where
  "updateProgress current total' message st =
     (let pct = (if total' > 0 then js_round ((real current / real total') * 100) else 0)
      in st\<lparr>progressBarWidth := String_int pct @ ''%'', progressText := message\<rparr>)"

subsection \<open>startExport\<close>

text \<open>
  A thrown error is \<open>Inl\<close> of its message and the state reached when it was thrown; every
  value thrown in the \<open>try\<close> block is an \<open>Error\<close>.
\<close>

type_synonym outcome = "string \<times> export_state + export_state"

text \<open>The frame loop, from the index \<open>i\<close> on.\<close>

function frameLoop :: "encoder \<Rightarrow> nat \<Rightarrow> nat \<Rightarrow> nat \<Rightarrow> export_state \<Rightarrow> outcome" where
  "frameLoop enc fps' totalFrames i st =
     (if i < totalFrames
      then (let time = (real i / real fps') * 1000
            in case renderExportFrame (the_renderer st) time of
                 None \<Rightarrow> Inl (typeErrorText enc, st)
               | Some (r, outCanvas) \<Rightarrow>
                  (let st1 = emit (RenderExportFrame time) (st\<lparr>the_renderer := r\<rparr>);
                       st2 = await CanvasToBlob st1
                   in if \<not> blob_ok enc i then Inl (typeErrorText enc, st2)
                      else (let st3 = await (WriteFile (frameName i) outCanvas)
                                        (await ArrayBuffer st2)
                            in case writeFile_error enc i of
                                 Some msg \<Rightarrow> Inl (msg, st3)
                               | None \<Rightarrow>
                                   frameLoop enc fps' totalFrames (i + 1)
                                     (updateProgress (i + 1) totalFrames
                                        (''Rendering frame '' @ String_nat (i + 1) @ '' / ''
                                           @ String_nat totalFrames) st3))))
      else Inr st)"
  by pat_completeness auto
termination
  by (relation "measure (\<lambda>(enc, fps', totalFrames, i, st). totalFrames - i)") auto

text \<open>The loop deleting the frame files; a failed deletion is swallowed.\<close>

function deleteLoop :: "nat \<Rightarrow> nat \<Rightarrow> export_state \<Rightarrow> export_state" where
  "deleteLoop totalFrames i st =
     (if i < totalFrames
      then deleteLoop totalFrames (i + 1) (await (DeleteFile (frameName i)) st)
      else st)"
  by pat_completeness auto
termination
  by (relation "measure (\<lambda>(totalFrames, i, st). totalFrames - i)") auto

text \<open>The part of the \<open>try\<close> block up to the loading of the encoder.\<close>

definition loadEncoder :: "encoder \<Rightarrow> nat \<Rightarrow> export_state \<Rightarrow> outcome" where
  "loadEncoder enc totalFrames st =
     (let st1 = updateProgress 0 totalFrames ''Loading FFmpeg...'' st;
          st2 = emit CreateWorker st1;
          st3 = await Load st2
      in case load_error enc of
           Some msg \<Rightarrow> Inl (msg, st3)
         | None \<Rightarrow> Inr st3)"

text \<open>The preparation of the canvases and the frame loop.\<close>

definition renderFrames :: "encoder \<Rightarrow> export_form \<Rightarrow> nat \<Rightarrow> export_state \<Rightarrow> outcome" where
  "renderFrames enc form totalFrames st =
     (let exportWidth' = resolutionWidth form;
          exportHeight' = resolutionHeight form;
          st1 = updateProgress 0 totalFrames ''Rendering frames...'' st;
          st2 = emit (InitExport exportWidth' exportHeight')
                  (st1\<lparr>the_renderer :=
                          initExport (the_renderer st1) exportWidth' exportHeight'\<rparr>)
      in frameLoop enc (fps form) totalFrames 0 st2)"

text \<open>The part of the \<open>try\<close> block after the frame loop.\<close>

definition encodeAndDownload :: "encoder \<Rightarrow> export_form \<Rightarrow> nat \<Rightarrow> export_state \<Rightarrow> outcome" where
  "encodeAndDownload enc form totalFrames st =
     (let st1 = emit CleanupExport (st\<lparr>the_renderer := cleanupExport (the_renderer st)\<rparr>);
          st2 = emit OnProgress st1;
          st3 = await (Exec [''-framerate'', String_nat (fps form),
                            ''-i'', ''frame_%05d.png'',
                            ''-c:v'', ''libx264'',
                            ''-preset'', ''medium'',
                            ''-crf'', ''14'',
                            ''-pix_fmt'', ''yuv444p'',
                            ''-color_range'', ''pc'',
                            ''-colorspace'', ''bt709'',
                            ''-color_trc'', ''bt709'',
                            ''-color_primaries'', ''bt709'',
                            ''-movflags'', ''+faststart'',
                            ''output.mp4'']) st2
      in case exec_result enc of
           Inl msg \<Rightarrow> Inl (msg, st3)
         | Inr exitCode \<Rightarrow>
            if exitCode \<noteq> 0
            then Inl (''ffmpeg exited with code '' @ String_int exitCode, st3)
            else (let st4 = await (ReadFile ''output.mp4'') st3
                  in case readFile_error enc of
                       Some msg \<Rightarrow> Inl (msg, st4)
                     | None \<Rightarrow>
                        (let st5 = emit (Download (resolutionWidth form) (resolutionHeight form)
                                           (fps form)) st4;
                             st6 = deleteLoop totalFrames 0 st5;
                             st7 = await (DeleteFile ''output.mp4'') st6;
                             st8 = emit Terminate st7
                         in Inr (updateProgress totalFrames totalFrames
                                   ''Export complete!'' st8))))"

text \<open>
  The \<open>try\<close> block: its statements run in sequence, and a throw skips the ones that
  follow.
\<close>

definition andThen :: "outcome \<Rightarrow> (export_state \<Rightarrow> outcome) \<Rightarrow> outcome" where
  "andThen out f = (case out of Inl err \<Rightarrow> Inl err | Inr st \<Rightarrow> f st)"

definition tryBlock :: "encoder \<Rightarrow> export_form \<Rightarrow> export_state \<Rightarrow> outcome" where
  "tryBlock enc form st =
     (let totalFrames = fps form * duration form
      in andThen (andThen (loadEncoder enc totalFrames st)
                    (renderFrames enc form totalFrames))
           (encodeAndDownload enc form totalFrames))"

text \<open>The \<open>catch\<close> and \<open>finally\<close> blocks.\<close>

definition catchBlock :: "string \<Rightarrow> export_state \<Rightarrow> export_state" where
  "catchBlock msg st = (emit (ConsoleError msg) st)\<lparr>progressText := ''Export failed: '' @ msg\<rparr>"

definition finallyBlock :: "export_state \<Rightarrow> export_state" where
  "finallyBlock st =
     emit HideProgressLater
       (st\<lparr>isExporting := False, btnDisabled := False, btnText := ''Export Video'',
           btnDimmed := False\<rparr>)"

text \<open>The statements between the guard and the \<open>try\<close> block.\<close>

definition enterExport :: "export_state \<Rightarrow> export_state" where
  "enterExport st =
     st\<lparr>isExporting := True, btnDisabled := True, btnText := ''Exporting...'',
        btnDimmed := True, progressHidden := False\<rparr>"

definition startExport :: "encoder \<Rightarrow> export_form \<Rightarrow> export_state \<Rightarrow> export_state" where
  "startExport enc form st =
     (if isExporting st then st
      else (let st1 = enterExport st;
                st2 = (case tryBlock enc form st1 of
                         Inr st' \<Rightarrow> st'
                       | Inl (msg, st') \<Rightarrow> catchBlock msg st')
            in finallyBlock st2))"

section \<open>Observations and sample inputs\<close>

text \<open>The state an outcome ends in, thrown or not.\<close>

definition reached :: "outcome \<Rightarrow> export_state" where
  "reached out = (case out of Inl (msg, st) \<Rightarrow> st | Inr st \<Rightarrow> st)"

text \<open>A renderer with the default settings on a 1920 by 1080 preview, and an idle page.\<close>

definition initialRenderer :: renderer where
  "initialRenderer =
     \<lparr>settings = defaultSettings, rectWidth = 1920, rectHeight = 1080, export = None\<rparr>"

definition idlePage :: export_state where
  "idlePage =
     \<lparr>isExporting = False, btnDisabled = False, btnText = ''Export Video'',
      btnDimmed = False, progressHidden = True, progressBarWidth = ''0%'',
      progressText = [], the_renderer = initialRenderer, events = [], suspensions = []\<rparr>"

text \<open>An encoder that acknowledges everything, and one whose \<open>exec\<close> ends with code 1.\<close>

definition workingEncoder :: encoder where
  "workingEncoder =
     \<lparr>load_error = None, blob_ok = (\<lambda>k. True), writeFile_error = (\<lambda>k. None),
      exec_result = Inr 0, readFile_error = None, typeErrorText = ''TypeError''\<rparr>"

definition failingEncoder :: encoder where
  "failingEncoder = workingEncoder\<lparr>exec_result := Inr 1\<rparr>"

definition sampleForm :: export_form where
  "sampleForm = \<lparr>resolutionWidth = 1920, resolutionHeight = 1080, duration = 5, fps = 30\<rparr>"

text \<open>
  A fresh surface with a given alpha and transform, and one with a given composite
  operation and transform. What a call draws is read off by letting it draw on them.
\<close>

definition surface :: "real \<Rightarrow> matrix \<Rightarrow> context2d" where
  "surface a m = newContext\<lparr>globalAlpha := a, transform := m\<rparr>"

definition blank :: "string \<Rightarrow> matrix \<Rightarrow> context2d" where
  "blank g m = newContext\<lparr>globalCompositeOperation := g, transform := m\<rparr>"

text \<open>
  A drawing step is local when, on every context, it appends what it draws on the blank
  context of the same composite operation and transform, and changes nothing else but
  the current path.
\<close>

definition local_draw :: "(context2d \<Rightarrow> context2d) \<Rightarrow> bool" where
  "local_draw f \<longleftrightarrow>
     (\<forall>c. \<exists>p. f c = c\<lparr>path := p, drawn := drawn c @
                 drawn (f (blank (globalCompositeOperation c) (transform c)))\<rparr>)"

text \<open>The operations of the layers of one frame, under the transform \<open>m\<close>.\<close>

definition layerOps ::
  "renderer \<Rightarrow> real \<Rightarrow> real option \<Rightarrow> real option \<Rightarrow> matrix
     \<Rightarrow> (draw_op \<times> drawing_state) list" where
  "layerOps r time width height m =
     concat (map (\<lambda>i. drawn (renderLayer (settings r) time (or_number width (rectWidth r))
                                 (or_number height (rectHeight r)) i
                                 (blank (blendMode (settings r)) m)))
               [0..<layerCount (settings r)])"

text \<open>The x coordinate of the centre of the gradient an operation is filled with.\<close>

definition centreX :: "draw_op \<times> drawing_state \<Rightarrow> real option" where
  "centreX d =
     (case d of
        (op, g, Gradient gr, a, m) \<Rightarrow> Some (x0 gr)
      | (op, g, Color col, a, m) \<Rightarrow> None)"

text \<open>The default settings with the motion of the second layer set to \<open>drift\<close>.\<close>

definition driftSettings :: settings where
  "driftSettings =
     defaultSettings\<lparr>layerMotions :=
       [''lissajous'', ''drift'', ''lissajous'', ''lissajous'', ''lissajous'', ''lissajous'']\<rparr>"

definition driftRenderer :: renderer where
  "driftRenderer = initialRenderer\<lparr>settings := driftSettings\<rparr>"

text \<open>
  The state of the generator after \<open>m\<close> further calls: the radius of the point \<open>j\<close> of
  an outline is read from the state \<open>j\<close> calls after the one that gave the point count.
\<close>

definition rng_step :: "nat \<Rightarrow> nat" where
  "rng_step s = fst (rng_next s)"

definition rng_state :: "nat \<Rightarrow> nat \<Rightarrow> nat" where
  "rng_state s m = (rng_step ^^ m) s"

text \<open>
  The alpha channel of a colour string as the canvas reads it, for the notations the
  renderer produces: the keyword \<open>transparent\<close>, \<open>#rrggbb\<close> (opaque) and \<open>#rrggbbaa\<close>,
  whose last two hexadecimal digits are the alpha out of 255. Other notations are not
  read here (\<open>None\<close>).
\<close>

definition hexValue :: "char \<Rightarrow> nat option" where
  "hexValue ch =
     map_of [(CHR ''0'', 0), (CHR ''1'', 1), (CHR ''2'', 2), (CHR ''3'', 3), (CHR ''4'', 4),
             (CHR ''5'', 5), (CHR ''6'', 6), (CHR ''7'', 7), (CHR ''8'', 8), (CHR ''9'', 9),
             (CHR ''a'', 10), (CHR ''b'', 11), (CHR ''c'', 12), (CHR ''d'', 13),
             (CHR ''e'', 14), (CHR ''f'', 15),
             (CHR ''A'', 10), (CHR ''B'', 11), (CHR ''C'', 12), (CHR ''D'', 13),
             (CHR ''E'', 14), (CHR ''F'', 15)] ch"

definition isHex :: "char \<Rightarrow> bool" where
  "isHex ch = (hexValue ch \<noteq> None)"

definition isHexColor :: "string \<Rightarrow> bool" where
  "isHexColor col = (length col = 7 \<and> hd col = CHR ''#'' \<and> list_all isHex (tl col))"

definition cssAlpha :: "string \<Rightarrow> real option" where
  "cssAlpha col =
     (if col = ''transparent'' then Some 0
      else if length col = 7 \<and> hd col = CHR ''#'' \<and> list_all isHex (tl col) then Some 1
      else if length col = 9 \<and> hd col = CHR ''#'' \<and> list_all isHex (tl col)
      then (case (hexValue (col ! 7), hexValue (col ! 8)) of
              (Some hi, Some lo) \<Rightarrow> Some (real (16 * hi + lo) / 255)
            | _ \<Rightarrow> None)
      else None)"

text \<open>
  The frames of an export as the encoder sees them: the renderings and the submissions
  (the name and the image written under it), in the order of the events. And the cleanup
  of the encoder's resources: the deletions of files and the termination of the worker.
\<close>

datatype frame_step = Rendered real | Submitted string out_frame

definition frameStep :: "event \<Rightarrow> frame_step list" where
  "frameStep e =
     (case e of
        RenderExportFrame t \<Rightarrow> [Rendered t]
      | WriteFile name d \<Rightarrow> [Submitted name d]
      | _ \<Rightarrow> [])"

definition frameSteps :: "event list \<Rightarrow> frame_step list" where
  "frameSteps es = concat (map frameStep es)"

definition cleanupStep :: "event \<Rightarrow> event list" where
  "cleanupStep e =
     (case e of
        DeleteFile name \<Rightarrow> [e]
      | Terminate \<Rightarrow> [e]
      | _ \<Rightarrow> [])"

definition cleanups :: "event list \<Rightarrow> event list" where
  "cleanups es = concat (map cleanupStep es)"

text \<open>
  What one export frame draws on the source canvas of the session \<open>e\<close>: the background
  over the whole canvas, then the frame of \<open>renderFrame\<close> at the time \<open>t\<close>, moved by
  the padding. And the image submitted as frame \<open>k\<close> at \<open>f\<close> frames per second: the
  output canvas with the blur of the session, holding the source canvas on which the
  frames at the times \<open>1000 j / f\<close> for \<open>j = 0, \<dots>, k\<close> have been drawn in this
  order, each over the whole canvas.
\<close>

definition frameDrawing ::
  "renderer \<Rightarrow> export_session \<Rightarrow> real \<Rightarrow> (draw_op \<times> drawing_state) list" where
  "frameDrawing r e t =
     (FillRect 0 0 (srcWidth e) (srcHeight e),
      (''source-over'', Color (bgColor (settings r)), 1, (1, 0, 0, 1, 0, 0)))
     # drawn (renderFrame r t
                (surface 1 (1, 0, 0, 1, real_of_int (pad e), real_of_int (pad e)))
                (Some (exportWidth e)) (Some (exportHeight e)))"

definition submittedFrame :: "renderer \<Rightarrow> export_session \<Rightarrow> nat \<Rightarrow> nat \<Rightarrow> out_frame" where
  "submittedFrame r e f k =
     \<lparr>outWidth = exportWidth e, outHeight = exportHeight e,
      filterBlur = blurPx e,
      imageX = - real_of_int (pad e), imageY = - real_of_int (pad e),
      image = concat (map (\<lambda>j. frameDrawing r e (1000 * real j / real f)) [0..<Suc k])\<rparr>"

text \<open>
  The source canvas between two frames: composite operation, alpha and transform are the
  initial ones and nothing is saved.
\<close>

definition cleanCtx :: "context2d \<Rightarrow> bool" where
  "cleanCtx c =
     (globalCompositeOperation c = ''source-over'' \<and> globalAlpha c = 1
      \<and> transform c = (1, 0, 0, 1, 0, 0) \<and> stack c = [])"

text \<open>
  The export flag is set, and it was set at every suspension after the first \<open>n\<close>.
\<close>

definition flagged :: "nat \<Rightarrow> export_state \<Rightarrow> bool" where
  "flagged n st =
     (isExporting st \<and> n \<le> length (suspensions st)
      \<and> list_all isExporting (drop n (suspensions st)))"

text \<open>The number a string of decimal digits stands for.\<close>

definition digitValue :: "char \<Rightarrow> nat" where
  "digitValue ch = (case hexValue ch of Some d \<Rightarrow> d | None \<Rightarrow> 0)"

definition decimalValue :: "string \<Rightarrow> nat" where
  "decimalValue s = foldl (\<lambda>a ch. 10 * a + digitValue ch) 0 s"

section \<open>Basic facts\<close>

declare frameLoop.simps [simp del] deleteLoop.simps [simp del] pointsLoop.simps [simp del]
  String_nat.simps [simp del]

lemma reached_simps [simp]: "reached (Inl (msg, st)) = st" "reached (Inr st) = st"
  by (simp_all add: reached_def)

lemma truncate_isExporting [simp]: "isExporting (page.truncate st) = isExporting st"
  by (simp add: page.truncate_def)

lemma emit_fields [simp]:
  "isExporting (emit e st) = isExporting st"
  "the_renderer (emit e st) = the_renderer st"
  "progressText (emit e st) = progressText st"
  "suspensions (emit e st) = suspensions st"
  "events (emit e st) = events st @ [e]"
  by (simp_all add: emit_def)

lemma await_fields [simp]:
  "isExporting (await e st) = isExporting st"
  "the_renderer (await e st) = the_renderer st"
  "progressText (await e st) = progressText st"
  "suspensions (await e st) = suspensions st @ [page.truncate (emit e st)]"
  "events (await e st) = events st @ [e]"
  by (simp_all add: await_def Let_def)

lemma updateProgress_fields [simp]:
  "isExporting (updateProgress a b m st) = isExporting st"
  "the_renderer (updateProgress a b m st) = the_renderer st"
  "suspensions (updateProgress a b m st) = suspensions st"
  "events (updateProgress a b m st) = events st"
  by (simp_all add: updateProgress_def Let_def)

lemma andThen_keeps:
  assumes "g (reached out) = v" and "\<And>st'. g st' = v \<Longrightarrow> g (reached (f st')) = v"
  shows "g (reached (andThen out f)) = v"
proof (cases out)
  case (Inl err)
  then show ?thesis using assms(1) by (simp add: andThen_def)
next
  case (Inr st')
  then show ?thesis using assms by (simp add: andThen_def)
qed

section \<open>Fallback for unknown kinds\<close>

text \<open>
  Claim C6. A shape kind other than \<open>ellipse\<close>, \<open>ring\<close> and \<open>blob\<close> is drawn by
  \<open>drawCircle\<close>, exactly as the kind \<open>circle\<close> is; a motion kind other than \<open>orbit\<close>,
  \<open>drift\<close>, \<open>breathe\<close> and \<open>wave\<close> gives the offsets of \<open>motionLissajous\<close>, exactly
  as the kind \<open>lissajous\<close> does. Both functions return a value for every kind: there is
  no error branch.
\<close>

theorem unknown_kind_falls_back:
  "(type \<notin> {''ellipse'', ''ring'', ''blob''} \<longrightarrow>
      drawShape type c cx cy blobRadius color opacity i
        = drawShape ''circle'' c cx cy blobRadius color opacity i
    \<and> drawShape type c cx cy blobRadius color opacity i
        = drawCircle c cx cy blobRadius color opacity)
   \<and> (mtype \<notin> {''orbit'', ''drift'', ''breathe'', ''wave''} \<longrightarrow>
      getMotionOffset mtype t orb motionRange
        = getMotionOffset ''lissajous'' t orb motionRange
    \<and> getMotionOffset mtype t orb motionRange = motionLissajous t orb motionRange)"
  by (simp add: drawShape_def getMotionOffset_def)

theorem unknown_kind_falls_back_witness:
  "''unknown'' \<notin> {''ellipse'', ''ring'', ''blob''}
   \<and> ''unknown'' \<notin> {''orbit'', ''drift'', ''breathe'', ''wave''}
   \<and> drawShape ''unknown'' newContext 960 540 400 ''#7c7cff'' 0.75 0
        = drawShape ''circle'' newContext 960 540 400 ''#7c7cff'' 0.75 0
   \<and> getMotionOffset ''unknown'' 0.25 (LAYER_ORBITS ! 1) 250
        = getMotionOffset ''lissajous'' 0.25 (LAYER_ORBITS ! 1) 250"
  using unknown_kind_falls_back
    [of "''unknown''" newContext 960 540 400 "''#7c7cff''" "0.75" 0
        "''unknown''" "0.25" "LAYER_ORBITS ! 1" 250]
  by simp

section \<open>Loop duration of zero\<close>

lemma renderLayer_loopMs:
  "or_number (loopDuration s) 10000 = or_number d 10000 \<Longrightarrow>
   renderLayer (s\<lparr>loopDuration := d\<rparr>) = renderLayer s"
  by (rule ext)+ (simp add: renderLayer_def)

text \<open>
  Claim C10. When \<open>loopDuration\<close> is zero or holds no number, the loop length used for
  the phase is 10000 (so the division \<open>time / loopMs\<close> is not by zero), and the frame is
  the one rendered from the same settings with \<open>loopDuration = 10000\<close>.
\<close>

theorem zero_loopDuration_renders_as_10000:
  assumes "loopDuration (settings r) = None \<or> loopDuration (settings r) = Some 0"
  shows "or_number (loopDuration (settings r)) 10000 = 10000
         \<and> renderFrame r time c width height
             = renderFrame (r\<lparr>settings := (settings r)\<lparr>loopDuration := Some 10000\<rparr>\<rparr>)
                 time c width height"
proof -
  have ms: "or_number (loopDuration (settings r)) 10000 = 10000"
    using assms by (auto simp: or_number_def)
  have "renderLayer ((settings r)\<lparr>loopDuration := Some 10000\<rparr>) = renderLayer (settings r)"
    by (rule renderLayer_loopMs) (simp add: ms, simp add: or_number_def)
  then show ?thesis
    using ms by (simp add: renderFrame_def Let_def)
qed

theorem zero_loopDuration_renders_as_10000_witness:
  "loopDuration (settings (initialRenderer\<lparr>settings := defaultSettings\<lparr>loopDuration := Some 0\<rparr>\<rparr>))
     = Some 0
   \<and> renderFrame (initialRenderer\<lparr>settings := defaultSettings\<lparr>loopDuration := Some 0\<rparr>\<rparr>)
        2500 newContext None None
      = renderFrame (initialRenderer\<lparr>settings := defaultSettings\<lparr>loopDuration := Some 10000\<rparr>\<rparr>)
          2500 newContext None None"
  using zero_loopDuration_renders_as_10000
    [of "initialRenderer\<lparr>settings := defaultSettings\<lparr>loopDuration := Some 0\<rparr>\<rparr>"
        2500 newContext None None]
  by simp

section \<open>One export at a time\<close>

lemma flagged_steps [simp]:
  "flagged n (emit e st) = flagged n st"
  "flagged n (updateProgress a b m st) = flagged n st"
  "flagged n (st\<lparr>the_renderer := r\<rparr>) = flagged n st"
  by (simp_all add: flagged_def)

lemma flagged_await [simp]: "flagged n st \<Longrightarrow> flagged n (await e st)"
  by (auto simp: flagged_def)

lemma deleteLoop_flagged: "flagged n st \<Longrightarrow> flagged n (deleteLoop m i st)"
proof (induction m i st rule: deleteLoop.induct)
  case (1 m i st)
  show ?case
    by (subst deleteLoop.simps) (use 1 in simp)
qed

lemma frameLoop_flagged:
  "flagged n st \<Longrightarrow> flagged n (reached (frameLoop enc f m i st))"
proof (induction enc f m i st rule: frameLoop.induct)
  case (1 enc f m i st)
  show ?case
    by (subst frameLoop.simps)
       (use 1 in \<open>auto simp: Let_def split: option.splits prod.splits sum.splits\<close>)
qed

lemma loadEncoder_flagged:
  "flagged n st \<Longrightarrow> flagged n (reached (loadEncoder enc m st))"
  by (simp add: loadEncoder_def Let_def split: option.splits)

lemma renderFrames_flagged:
  "flagged n st \<Longrightarrow> flagged n (reached (renderFrames enc form m st))"
  by (simp add: renderFrames_def Let_def frameLoop_flagged)

lemma encodeAndDownload_flagged:
  "flagged n st \<Longrightarrow> flagged n (reached (encodeAndDownload enc form m st))"
  by (simp add: encodeAndDownload_def Let_def deleteLoop_flagged
        split: option.splits sum.splits)

lemma tryBlock_flagged:
  assumes "flagged n st"
  shows "flagged n (reached (tryBlock enc form st))"
proof -
  have "flagged n (reached (tryBlock enc form st)) = True"
    unfolding tryBlock_def Let_def
    by (rule andThen_keeps[where f="encodeAndDownload enc form (fps form * duration form)"],
        rule andThen_keeps[where f="renderFrames enc form (fps form * duration form)"])
       (simp_all add: assms loadEncoder_flagged renderFrames_flagged encodeAndDownload_flagged)
  then show ?thesis by simp
qed

text \<open>
  The first suspension of an export is the loading of the encoder, so a running export
  is suspended at least once.
\<close>

lemma tryBlock_suspends:
  assumes "isExporting st"
  shows "flagged (Suc (length (suspensions st))) (reached (tryBlock enc form st))
         \<or> (\<exists>msg. load_error enc = Some msg
              \<and> length (suspensions (reached (tryBlock enc form st)))
                  = Suc (length (suspensions st)))"
proof (cases "load_error enc")
  case (Some msg)
  then show ?thesis
    by (simp add: tryBlock_def Let_def andThen_def loadEncoder_def)
next
  case None
  define st3 where "st3 = await Load (emit CreateWorker
      (updateProgress 0 (fps form * duration form) ''Loading FFmpeg...'' st))"
  have l: "loadEncoder enc (fps form * duration form) st = Inr st3"
    by (simp add: loadEncoder_def Let_def None st3_def)
  have f3: "flagged (Suc (length (suspensions st))) st3"
    using assms by (simp add: flagged_def st3_def)
  have "flagged (Suc (length (suspensions st))) (reached (tryBlock enc form st)) = True"
    unfolding tryBlock_def Let_def
    by (rule andThen_keeps[where f="encodeAndDownload enc form (fps form * duration form)"],
        rule andThen_keeps[where f="renderFrames enc form (fps form * duration form)"])
       (simp_all add: l f3 renderFrames_flagged encodeAndDownload_flagged)
  then show ?thesis by simp
qed

lemma startExport_suspensions:
  assumes "\<not> isExporting st"
  shows "suspensions (startExport enc form st)
           = suspensions (reached (tryBlock enc form (enterExport st)))"
    and "\<not> isExporting (startExport enc form st)"
  using assms
  by (auto simp: startExport_def finallyBlock_def catchBlock_def Let_def split: sum.splits)

text \<open>
  Claim C9. A request to start an export while \<open>isExporting\<close> is set returns at once and
  leaves the whole state as it was: no event (no rendering, no loading of the encoder),
  no change of the session or of the progress display. And an export that starts sets
  the flag itself: it is suspended at least once, at every point where it is suspended
  the page has the flag set, so a request that arrives there is ignored, and the flag is
  clear again only when \<open>startExport\<close> has returned.
\<close>

theorem reentrant_start_is_ignored:
  "(isExporting st \<longrightarrow> startExport enc form st = st)
   \<and> (\<not> isExporting st \<longrightarrow>
        length (suspensions st) < length (suspensions (startExport enc form st))
        \<and> list_all isExporting
             (drop (length (suspensions st)) (suspensions (startExport enc form st)))
        \<and> \<not> isExporting (startExport enc form st))"
proof (cases "isExporting st")
  case True
  then show ?thesis by (simp add: startExport_def)
next
  case False
  define st1 where "st1 = enterExport st"
  have s1: "isExporting st1" "suspensions st1 = suspensions st"
    by (simp_all add: st1_def enterExport_def)
  then have "flagged (length (suspensions st)) st1"
    by (simp add: flagged_def)
  then have a: "flagged (length (suspensions st)) (reached (tryBlock enc form st1))"
    by (rule tryBlock_flagged)
  have b: "length (suspensions st) < length (suspensions (reached (tryBlock enc form st1)))"
    using tryBlock_suspends[OF s1(1), of enc form] by (auto simp: flagged_def s1(2))
  show ?thesis
    using False a b startExport_suspensions[OF False, of enc form]
    by (simp add: st1_def flagged_def)
qed

theorem reentrant_start_is_ignored_witness:
  "\<not> isExporting idlePage
   \<and> suspensions (startExport workingEncoder sampleForm idlePage) \<noteq> []
   \<and> list_all isExporting (suspensions (startExport workingEncoder sampleForm idlePage))
   \<and> isExporting (reached (loadEncoder workingEncoder 150 (enterExport idlePage)))
   \<and> startExport workingEncoder sampleForm
        (reached (loadEncoder workingEncoder 150 (enterExport idlePage)))
       = reached (loadEncoder workingEncoder 150 (enterExport idlePage))"
proof -
  have idle: "\<not> isExporting idlePage" "suspensions idlePage = []"
    by (simp_all add: idlePage_def)
  have inflight: "isExporting (reached (loadEncoder workingEncoder 150 (enterExport idlePage)))"
    by (simp add: loadEncoder_def Let_def workingEncoder_def enterExport_def)
  show ?thesis
    using idle inflight
      reentrant_start_is_ignored [of idlePage workingEncoder sampleForm]
      reentrant_start_is_ignored
        [of "reached (loadEncoder workingEncoder 150 (enterExport idlePage))"
            workingEncoder sampleForm]
    by auto
qed

section \<open>What a frame draws\<close>

lemma blank_simps [simp]:
  "globalCompositeOperation (blank g m) = g" "transform (blank g m) = m"
  "drawn (blank g m) = []" "path (blank g m) = []" "stack (blank g m) = []"
  by (simp_all add: blank_def newContext_def)

lemmas canvas_defs = save_def restore_def fillRect_def state_of_def createRadialGradient_def
  addColorStop_def translate_def scale_def beginPath_def closePath_def fill_def
  moveTo_def quadraticCurveTo_def

lemma drawCircle_local:
  "drawCircle c cx cy r color opacity =
     c\<lparr>drawn := drawn c @
        drawn (drawCircle (blank (globalCompositeOperation c) (transform c)) cx cy r color opacity)\<rparr>"
  by (simp add: drawCircle_def canvas_defs)

lemma drawRing_local:
  "drawRing c cx cy r color opacity =
     c\<lparr>drawn := drawn c @
        drawn (drawRing (blank (globalCompositeOperation c) (transform c)) cx cy r color opacity)\<rparr>"
  by (simp add: drawRing_def canvas_defs)

lemma drawEllipse_local:
  "drawEllipse c cx cy r color opacity i =
     c\<lparr>drawn := drawn c @
        drawn (drawEllipse (blank (globalCompositeOperation c) (transform c)) cx cy r color opacity i)\<rparr>"
  by (simp add: drawEllipse_def canvas_defs Let_def split: prod.splits)

lemma blobSegment_local:
  "blobSegment pts cx cy r j c =
     c\<lparr>path := path c @ path (blobSegment pts cx cy r j (blank g (transform c)))\<rparr>"
  by (simp add: blobSegment_def canvas_defs Let_def)

lemma blobSegment_transform [simp]:
  "transform (blobSegment pts cx cy r j c) = transform c"
  by (simp add: blobSegment_def canvas_defs Let_def)

lemma fold_blobSegment:
  "fold (blobSegment pts cx cy r) js c =
     c\<lparr>path := path c @
        concat (map (\<lambda>j. path (blobSegment pts cx cy r j (blank [] (transform c)))) js)\<rparr>"
proof (induction js arbitrary: c)
  case Nil
  then show ?case by simp
next
  case (Cons j js)
  define P where "P = path (blobSegment pts cx cy r j (blank [] (transform c)))"
  have seg: "blobSegment pts cx cy r j c = c\<lparr>path := path c @ P\<rparr>"
    unfolding P_def by (rule blobSegment_local)
  have "fold (blobSegment pts cx cy r) (j # js) c
          = fold (blobSegment pts cx cy r) js (c\<lparr>path := path c @ P\<rparr>)"
    by (simp add: seg)
  also have "\<dots> = c\<lparr>path := path c @ P @
        concat (map (\<lambda>j. path (blobSegment pts cx cy r j (blank [] (transform c)))) js)\<rparr>"
    by (simp add: Cons)
  finally show ?case by (simp add: P_def)
qed

lemma drawBlob_local:
  "drawBlob c cx cy r color opacity i =
     c\<lparr>path := path (drawBlob (blank (globalCompositeOperation c) (transform c)) cx cy r color opacity i),
       drawn := drawn c @
        drawn (drawBlob (blank (globalCompositeOperation c) (transform c)) cx cy r color opacity i)\<rparr>"
  by (simp add: drawBlob_def fold_blobSegment canvas_defs Let_def)

lemma local_drawI:
  "(\<And>c. f c = c\<lparr>path := p c, drawn := drawn c @
                 drawn (f (blank (globalCompositeOperation c) (transform c)))\<rparr>) \<Longrightarrow> local_draw f"
  unfolding local_draw_def by blast

lemma drawShape_local:
  "local_draw (\<lambda>c. drawShape type c cx cy r color opacity i)"
proof -
  consider "type = ''ellipse''" | "type \<noteq> ''ellipse''" "type = ''ring''"
    | "type \<noteq> ''ellipse''" "type \<noteq> ''ring''" "type = ''blob''"
    | "type \<noteq> ''ellipse''" "type \<noteq> ''ring''" "type \<noteq> ''blob''"
    by blast
  then show ?thesis
  proof cases
    case 1
    show ?thesis
      by (rule local_drawI[where p=path])
         (simp only: drawShape_def 1 if_True, subst drawEllipse_local, simp)
  next
    case 2
    show ?thesis
      by (rule local_drawI[where p=path])
         (simp only: drawShape_def 2 if_True if_False, subst drawRing_local, simp)
  next
    case 3
    show ?thesis
      by (rule local_drawI[where
            p="\<lambda>c. path (drawBlob (blank (globalCompositeOperation c) (transform c))
                         cx cy r color opacity i)"])
         (simp only: drawShape_def 3 if_True if_False, subst drawBlob_local, simp)
  next
    case 4
    show ?thesis
      by (rule local_drawI[where p=path])
         (simp only: drawShape_def 4 if_True if_False, subst drawCircle_local, simp)
  qed
qed

lemma renderLayer_local: "local_draw (renderLayer s time w h i)"
  unfolding renderLayer_def Let_def by (rule drawShape_local)

lemma fold_local:
  assumes "\<And>i. local_draw (f i)"
  shows "\<exists>p. fold f js c = c\<lparr>path := p, drawn := drawn c @
           concat (map (\<lambda>i. drawn (f i (blank (globalCompositeOperation c) (transform c)))) js)\<rparr>"
proof (induction js arbitrary: c)
  case Nil
  show ?case by (rule exI[of _ "path c"]) simp
next
  case (Cons j js)
  define D where "D = drawn (f j (blank (globalCompositeOperation c) (transform c)))"
  obtain p where step: "f j c = c\<lparr>path := p, drawn := drawn c @ D\<rparr>"
    using assms[of j] unfolding local_draw_def D_def by blast
  obtain q where rest: "fold f js (f j c) = (f j c)\<lparr>path := q, drawn := drawn (f j c) @
      concat (map (\<lambda>i. drawn (f i (blank (globalCompositeOperation (f j c)) (transform (f j c))))) js)\<rparr>"
    using Cons[of "f j c"] by blast
  have g: "globalCompositeOperation (f j c) = globalCompositeOperation c"
    and t: "transform (f j c) = transform c" and d: "drawn (f j c) = drawn c @ D"
    by (simp_all add: step)
  show ?case
    apply (rule exI[of _ q])
    apply (simp add: rest g t d)
    apply (simp add: step D_def)
    done
qed

lemma renderFrame_explicit:
  "\<exists>p. renderFrame r time c width height =
     c\<lparr>globalCompositeOperation := ''source-over'',
       fillStyle := Color (bgColor (settings r)),
       path := p,
       drawn := drawn c @
         (FillRect 0 0 (or_number width (rectWidth r)) (or_number height (rectHeight r)),
          (''source-over'', Color (bgColor (settings r)), globalAlpha c, transform c))
         # layerOps r time width height (transform c)\<rparr>"
proof -
  define w where "w = or_number width (rectWidth r)"
  define h where "h = or_number height (rectHeight r)"
  define s where "s = settings r"
  define c4 where "c4 = (fillRect 0 0 w h
       (c\<lparr>globalCompositeOperation := ''source-over'', fillStyle := Color (bgColor s)\<rparr>))
         \<lparr>globalCompositeOperation := blendMode s\<rparr>"
  obtain p where f: "fold (renderLayer s time w h) [0..<layerCount s] c4 =
      c4\<lparr>path := p, drawn := drawn c4 @
           concat (map (\<lambda>i. drawn (renderLayer s time w h i
                     (blank (globalCompositeOperation c4) (transform c4)))) [0..<layerCount s])\<rparr>"
    using fold_local[of "renderLayer s time w h" "[0..<layerCount s]" c4, OF renderLayer_local]
    by blast
  have c4_simps: "globalCompositeOperation c4 = blendMode s" "transform c4 = transform c"
    by (simp_all add: c4_def fillRect_def)
  have "renderFrame r time c width height =
      (fold (renderLayer s time w h) [0..<layerCount s] c4)\<lparr>globalCompositeOperation := ''source-over''\<rparr>"
    by (simp add: renderFrame_def Let_def w_def h_def s_def c4_def)
  also have "\<dots> = c\<lparr>globalCompositeOperation := ''source-over'',
       fillStyle := Color (bgColor s), path := p,
       drawn := drawn c @ (FillRect 0 0 w h, (''source-over'', Color (bgColor s), globalAlpha c, transform c))
         # layerOps r time width height (transform c)\<rparr>"
    unfolding f c4_simps
    by (simp add: c4_def fillRect_def state_of_def layerOps_def w_def h_def s_def)
  finally show ?thesis
    unfolding w_def h_def s_def by blast
qed

text \<open>
  Claim C3. What \<open>renderFrame\<close> draws on a context is what it draws on a fresh surface
  with the alpha and transform the context had on entry: it depends on the time, the
  settings and the dimensions, and on nothing else the context holds (composite operation,
  fill style, path, stack, earlier drawing). The call leaves alpha, transform and stack as
  they were, so a second call with the same arguments draws the same operations again.
\<close>

theorem renderFrame_is_deterministic:
  "drawn (renderFrame r time c width height)
     = drawn c @ drawn (renderFrame r time (surface (globalAlpha c) (transform c)) width height)
   \<and> globalAlpha (renderFrame r time c width height) = globalAlpha c
   \<and> transform (renderFrame r time c width height) = transform c
   \<and> stack (renderFrame r time c width height) = stack c
   \<and> drawn (renderFrame r time (renderFrame r time c width height) width height)
     = drawn (renderFrame r time c width height)
        @ drawn (renderFrame r time (surface (globalAlpha c) (transform c)) width height)"
proof -
  define F where "F = (FillRect 0 0 (or_number width (rectWidth r)) (or_number height (rectHeight r)),
          (''source-over'', Color (bgColor (settings r)), globalAlpha c, transform c))
         # layerOps r time width height (transform c)"
  obtain p where 1: "renderFrame r time c width height =
     c\<lparr>globalCompositeOperation := ''source-over'', fillStyle := Color (bgColor (settings r)),
       path := p, drawn := drawn c @ F\<rparr>"
    using renderFrame_explicit[of r time c width height] unfolding F_def by blast
  obtain q where 2: "renderFrame r time (surface (globalAlpha c) (transform c)) width height =
     (surface (globalAlpha c) (transform c))\<lparr>globalCompositeOperation := ''source-over'',
       fillStyle := Color (bgColor (settings r)), path := q, drawn := F\<rparr>"
    using renderFrame_explicit[of r time "surface (globalAlpha c) (transform c)" width height]
    unfolding F_def by (auto simp: surface_def newContext_def)
  define c' where "c' = renderFrame r time c width height"
  obtain p' where 3: "renderFrame r time c' width height =
     c'\<lparr>globalCompositeOperation := ''source-over'', fillStyle := Color (bgColor (settings r)),
       path := p', drawn := drawn c' @ (FillRect 0 0 (or_number width (rectWidth r)) (or_number height (rectHeight r)),
          (''source-over'', Color (bgColor (settings r)), globalAlpha c', transform c'))
         # layerOps r time width height (transform c')\<rparr>"
    using renderFrame_explicit[of r time c' width height] by blast
  have c': "globalAlpha c' = globalAlpha c" "transform c' = transform c"
    by (simp_all add: c'_def 1)
  show ?thesis
    unfolding c'_def[symmetric]
    apply (simp add: 3 c' 2)
    apply (simp add: c'_def 1 F_def)
    done
qed

section \<open>Periodicity of the motion functions\<close>

lemma js_rem_examples:
  "js_rem (1/2) 1 = 1/2" "js_rem (- (1/2)) 1 = - (1/2)" "js_rem (- (3/2)) 1 = - (1/2)"
  "js_rem (309/500) 1 = 309/500"
  by (simp_all add: js_rem_def js_trunc_def ceiling_def)

lemma sin_turns: "sin ((a + of_int k) * pi * 2) = sin (a * pi * 2)"
proof -
  have "(a + of_int k) * pi * 2 = a * pi * 2 + 2 * pi * of_int k"
    by (simp add: algebra_simps)
  then show ?thesis
    using sin_cos_eq_iff[of "(a + of_int k) * pi * 2" "a * pi * 2"] by blast
qed

lemma cos_turns: "cos ((a + of_int k) * pi * 2) = cos (a * pi * 2)"
proof -
  have "(a + of_int k) * pi * 2 = a * pi * 2 + 2 * pi * of_int k"
    by (simp add: algebra_simps)
  then show ?thesis
    using sin_cos_eq_iff[of "(a + of_int k) * pi * 2" "a * pi * 2"] by blast
qed

lemma sin_turns': "sin ((t + of_int k + a) * pi * 2) = sin ((t + a) * pi * 2)"
  using sin_turns[of "t + a" k] by (simp add: add.assoc add.commute add.left_commute)

lemma cos_turns': "cos ((t + of_int k + a) * pi * 2) = cos ((t + a) * pi * 2)"
  using cos_turns[of "t + a" k] by (simp add: add.assoc add.commute add.left_commute)

lemma sin_turns2: "sin ((t * 2 + of_int k * 2 + a) * pi * 2) = sin ((t * 2 + a) * pi * 2)"
  using sin_turns[of "t * 2 + a" "2 * k"] by (simp add: algebra_simps)

lemma motion_periodic_unless_drift:
  "mtype \<noteq> ''drift'' \<Longrightarrow>
   getMotionOffset mtype (t + of_int k) orb motionRange = getMotionOffset mtype t orb motionRange"
  by (simp add: getMotionOffset_def motionOrbit_def motionBreathe_def motionWave_def
        motionLissajous_def sin_turns' cos_turns' sin_turns2 Let_def)

lemma js_rem_shift: "0 \<le> x \<Longrightarrow> js_rem (x + of_nat k) 1 = js_rem x 1"
  by (simp add: js_rem_def js_trunc_def)

lemma drift_periodic_forward:
  "dirX orb = 1 \<Longrightarrow> 0 \<le> t + phaseX orb \<Longrightarrow>
   motionDrift (t + of_nat k) orb motionRange = motionDrift t orb motionRange"
  using js_rem_shift[of "t + phaseX orb" k] sin_turns'[of t "int k" "phaseY orb"]
  by (simp add: motionDrift_def Let_def add.assoc add.commute add.left_commute)

text \<open>
  Claim C2. The claim (period 1 in the phase for every kind) fails for \<open>drift\<close>: with
  the orbit of the second layer slot (\<open>dirX = -1\<close>, \<open>phaseX = 0.5\<close>) and range 250 the
  horizontal offset is 0 at phase 0 and -500 at phase 1, since \<open>%\<close> keeps the sign of
  \<open>-0.5\<close>. The other kinds are periodic (\<open>motion_periodic_unless_drift\<close>).
\<close>

theorem drift_offset_is_not_periodic:
  "offsetX (getMotionOffset ''drift'' 0 (LAYER_ORBITS ! 1) 250) = 0
   \<and> offsetX (getMotionOffset ''drift'' (0 + 1) (LAYER_ORBITS ! 1) 250) = - 500
   \<and> getMotionOffset ''drift'' 0 (LAYER_ORBITS ! 1) 250
       \<noteq> getMotionOffset ''drift'' (0 + 1) (LAYER_ORBITS ! 1) 250"
proof -
  have a: "offsetX (getMotionOffset ''drift'' 0 (LAYER_ORBITS ! 1) 250) = 0"
    by (simp add: getMotionOffset_def motionDrift_def LAYER_ORBITS_def js_rem_examples)
  have b: "offsetX (getMotionOffset ''drift'' (0 + 1) (LAYER_ORBITS ! 1) 250) = - 500"
    by (simp add: getMotionOffset_def motionDrift_def LAYER_ORBITS_def js_rem_examples)
  from a b have "offsetX (getMotionOffset ''drift'' 0 (LAYER_ORBITS ! 1) 250)
      \<noteq> offsetX (getMotionOffset ''drift'' (0 + 1) (LAYER_ORBITS ! 1) 250)"
    by simp
  then have "getMotionOffset ''drift'' 0 (LAYER_ORBITS ! 1) 250
       \<noteq> getMotionOffset ''drift'' (0 + 1) (LAYER_ORBITS ! 1) 250"
    by metis
  with a b show ?thesis by blast
qed

section \<open>The loop identity\<close>

lemma drawShape_one:
  "\<exists>op. drawn (drawShape type (blank g m) cx cy r color opacity i) = [op]"
  by (simp add: drawShape_def drawCircle_def drawEllipse_def drawRing_def drawBlob_def
        canvas_defs Let_def fold_blobSegment blank_def newContext_def split: prod.splits)

lemma renderLayer_one: "\<exists>op. drawn (renderLayer s time w h i (blank g m)) = [op]"
  unfolding renderLayer_def Let_def by (rule drawShape_one)

lemma layerOps_map:
  "layerOps r time width height m =
     map (\<lambda>i. hd (drawn (renderLayer (settings r) time (or_number width (rectWidth r))
                                 (or_number height (rectHeight r)) i
                                 (blank (blendMode (settings r)) m))))
       [0..<layerCount (settings r)]"
proof -
  have "drawn (renderLayer s time w h i (blank g m))
          = [hd (drawn (renderLayer s time w h i (blank g m)))]" for s w h i g
    using renderLayer_one[of s time w h i g m] by auto
  then have "(\<lambda>i. drawn (renderLayer s time w h i (blank g m)))
          = (\<lambda>i. [hd (drawn (renderLayer s time w h i (blank g m)))])" for s w h g
    by auto
  then show ?thesis
    unfolding layerOps_def by (simp add: concat_map_singleton)
qed

lemma renderFrame_nth:
  assumes "i < layerCount (settings r)"
  shows "drawn (renderFrame r time newContext width height) ! Suc i =
     hd (drawn (renderLayer (settings r) time (or_number width (rectWidth r))
                                 (or_number height (rectHeight r)) i
                                 (blank (blendMode (settings r)) (1, 0, 0, 1, 0, 0))))"
proof -
  obtain p where "renderFrame r time newContext width height =
     newContext\<lparr>globalCompositeOperation := ''source-over'',
       fillStyle := Color (bgColor (settings r)),
       path := p,
       drawn := drawn newContext @
         (FillRect 0 0 (or_number width (rectWidth r)) (or_number height (rectHeight r)),
          (''source-over'', Color (bgColor (settings r)), globalAlpha newContext, transform newContext))
         # layerOps r time width height (transform newContext)\<rparr>"
    using renderFrame_explicit[of r time newContext width height] by blast
  then show ?thesis
    using assms by (simp add: newContext_def layerOps_map)
qed

lemma drift_centre_0:
  "centreX (drawn (renderFrame driftRenderer 0 newContext None None) ! 2) = Some (136992 / 125)"
proof -
  have "drawn (renderFrame driftRenderer 0 newContext None None) ! Suc 1 =
     hd (drawn (renderLayer (settings driftRenderer) 0 (or_number None (rectWidth driftRenderer))
                                 (or_number None (rectHeight driftRenderer)) 1
                                 (blank (blendMode (settings driftRenderer)) (1, 0, 0, 1, 0, 0))))"
    by (rule renderFrame_nth) (simp add: driftRenderer_def driftSettings_def defaultSettings_def initialRenderer_def)
  then show ?thesis
    by (simp add: numeral_2_eq_2 driftRenderer_def driftSettings_def defaultSettings_def
        initialRenderer_def renderLayer_def or_number_def or_string_def js_index_def nullish_def
        LAYER_ORBITS_def DEFAULT_LAYER_COLORS_def getMotionOffset_def motionDrift_def
        drawShape_def drawCircle_def canvas_defs js_rem_examples centreX_def Let_def)
qed

lemma drift_centre_1:
  "centreX (drawn (renderFrame driftRenderer 10000 newContext None None) ! 2) = Some (74492 / 125)"
proof -
  have "drawn (renderFrame driftRenderer 10000 newContext None None) ! Suc 1 =
     hd (drawn (renderLayer (settings driftRenderer) 10000 (or_number None (rectWidth driftRenderer))
                                 (or_number None (rectHeight driftRenderer)) 1
                                 (blank (blendMode (settings driftRenderer)) (1, 0, 0, 1, 0, 0))))"
    by (rule renderFrame_nth) (simp add: driftRenderer_def driftSettings_def defaultSettings_def initialRenderer_def)
  then show ?thesis
    by (simp add: numeral_2_eq_2 driftRenderer_def driftSettings_def defaultSettings_def
        initialRenderer_def renderLayer_def or_number_def or_string_def js_index_def nullish_def
        LAYER_ORBITS_def DEFAULT_LAYER_COLORS_def getMotionOffset_def motionDrift_def
        drawShape_def drawCircle_def canvas_defs js_rem_examples centreX_def Let_def)
qed

lemma orbit_phaseX_nonneg: "0 \<le> phaseX (LAYER_ORBITS ! (i mod length LAYER_ORBITS))"
proof -
  have "i mod 6 < 6" by simp
  then consider "i mod 6 = 0" | "i mod 6 = 1" | "i mod 6 = 2" | "i mod 6 = 3"
    | "i mod 6 = 4" | "i mod 6 = 5"
    by linarith
  then show ?thesis
    by cases (simp_all add: LAYER_ORBITS_def)
qed

lemma renderLayer_loop:
  assumes "loopDuration s = Some d" and "d \<noteq> 0"
    and "nullish (js_index (layerCycles s) i) 1 = real k"
    and "or_string (js_index (layerMotions s) i) ''lissajous'' = ''drift''
           \<longrightarrow> dirX (LAYER_ORBITS ! (i mod length LAYER_ORBITS)) = 1"
  shows "renderLayer s d w h i = renderLayer s 0 w h i"
proof -
  define orb where "orb = LAYER_ORBITS ! (i mod length LAYER_ORBITS)"
  define m where "m = or_string (js_index (layerMotions s) i) ''lissajous''"
  define rng where "rng = nullish (js_index (layerMotionRanges s) i) 250"
  have ms: "or_number (loopDuration s) 10000 = d"
    using assms(1,2) by (simp add: or_number_def)
  have off: "getMotionOffset m (real k) orb rng = getMotionOffset m 0 orb rng"
  proof (cases "m = ''drift''")
    case True
    then have "dirX orb = 1" using assms(4) by (simp add: m_def orb_def)
    moreover have "0 \<le> 0 + phaseX orb"
      using orbit_phaseX_nonneg[of i] by (simp add: orb_def)
    ultimately show ?thesis
      using drift_periodic_forward[of orb 0 k rng] True by (simp add: getMotionOffset_def)
  next
    case False
    then show ?thesis
      using motion_periodic_unless_drift[of m 0 "int k" orb rng] by simp
  qed
  have sc: "sin ((real k + phaseX orb * 2) * pi * 2) = sin ((0 + phaseX orb * 2) * pi * 2)"
    using sin_turns[of "phaseX orb * 2" "int k"] by (simp add: add.commute)
  show ?thesis
    apply (rule ext)
    unfolding renderLayer_def Let_def ms assms(3) orb_def[symmetric] m_def[symmetric] rng_def[symmetric]
    using assms(2) by (simp add: off sc)
qed

lemma loop_identity_without_backward_drift:
  assumes "loopDuration (settings r) = Some d" and "0 < d"
    and "\<forall>i<layerCount (settings r).
           \<exists>k>0. nullish (js_index (layerCycles (settings r)) i) 1 = real k"
    and "\<forall>i<layerCount (settings r).
           or_string (js_index (layerMotions (settings r)) i) ''lissajous'' = ''drift''
           \<longrightarrow> dirX (LAYER_ORBITS ! (i mod length LAYER_ORBITS)) = 1"
  shows "renderFrame r d c width height = renderFrame r 0 c width height"
proof -
  have "fold (renderLayer (settings r) d w h) [0..<layerCount (settings r)]
      = fold (renderLayer (settings r) 0 w h) [0..<layerCount (settings r)]" for w h
  proof (rule fold_cong[OF refl refl, THEN ext])
    fix i c' assume "i \<in> set [0..<layerCount (settings r)]"
    then have i: "i < layerCount (settings r)" by simp
    then obtain k where "nullish (js_index (layerCycles (settings r)) i) 1 = real k"
      using assms(3) by blast
    then show "renderLayer (settings r) d w h i = renderLayer (settings r) 0 w h i"
      using renderLayer_loop[of "settings r" d i k w h] assms(1,2,4) i by simp
  qed
  then show ?thesis
    by (simp add: renderFrame_def Let_def)
qed

text \<open>
  Claim C1. The claim (the frames at time 0 and at \<open>loopDuration\<close> draw the same
  operations whenever all cycle counts are positive integers) fails for the default
  settings with the second layer set to \<open>drift\<close>: on a 1920 by 1080 surface the gradient
  of that layer is centred at x = 1095.936 at time 0 and at x = 595.936 at time 10000.
  The identity holds when no layer on a slot with \<open>dirX = -1\<close> drifts
  (\<open>loop_identity_without_backward_drift\<close>).
\<close>

theorem loop_identity_fails_with_drift:
  "loopDuration (settings driftRenderer) = Some 10000
   \<and> layerCycles (settings driftRenderer) = [1, 2, 1, 3, 2, 1]
   \<and> centreX (drawn (renderFrame driftRenderer 0 newContext None None) ! 2)
       = Some (136992 / 125)
   \<and> centreX (drawn (renderFrame driftRenderer 10000 newContext None None) ! 2)
       = Some (74492 / 125)
   \<and> renderFrame driftRenderer 0 newContext None None
       \<noteq> renderFrame driftRenderer 10000 newContext None None"
proof -
  have "centreX (drawn (renderFrame driftRenderer 0 newContext None None) ! 2)
      \<noteq> centreX (drawn (renderFrame driftRenderer 10000 newContext None None) ! 2)"
    by (simp add: drift_centre_0 drift_centre_1)
  then have "renderFrame driftRenderer 0 newContext None None
       \<noteq> renderFrame driftRenderer 10000 newContext None None"
    by metis
  then show ?thesis
    by (simp add: drift_centre_0 drift_centre_1)
       (simp add: driftRenderer_def driftSettings_def defaultSettings_def)
qed

section \<open>Blob outlines are fixed by the layer index\<close>

lemma rng_state_0 [simp]: "rng_state s 0 = s"
  by (simp add: rng_state_def)

lemma rng_step_nonzero:
  assumes "0 < s" and "s < 2147483647"
  shows "(s * 16807) mod 2147483647 \<noteq> (0::nat)"
proof
  assume "(s * 16807) mod 2147483647 = 0"
  then have "2147483647 dvd s * 16807" by (simp add: dvd_eq_mod_eq_0)
  then have "2147483647 dvd s * 16807 * 1407677000" by (rule dvd_mult2)
  moreover have "s * 16807 * 1407677000 = s + 2147483647 * (11017 * s)" by simp
  ultimately have "2147483647 dvd s + 2147483647 * (11017 * s)" by (simp only:)
  moreover have "2147483647 dvd 2147483647 * (11017 * s)" by (rule dvd_triv_left)
  ultimately have "2147483647 dvd s" by (simp only: dvd_add_left_iff)
  then show False using assms by (auto dest: dvd_imp_le)
qed

lemma rng_next_range:
  assumes "0 < s" and "s < 2147483647"
  shows "0 < fst (rng_next s) \<and> fst (rng_next s) < 2147483647
         \<and> 0 \<le> snd (rng_next s) \<and> snd (rng_next s) < 1"
proof -
  define s' where "s' = (s * 16807) mod 2147483647"
  have "s' \<noteq> 0" using rng_step_nonzero[OF assms] by (simp add: s'_def)
  moreover have "s' < 2147483647" by (simp add: s'_def)
  ultimately have "1 \<le> real s'" "real s' < 2147483647" by simp_all
  then have "0 \<le> (real s' - 1) / 2147483646" "(real s' - 1) / 2147483646 < 1"
    by simp_all
  then show ?thesis
    using \<open>s' \<noteq> 0\<close> \<open>s' < 2147483647\<close> by (simp add: rng_next_def s'_def Let_def)
qed

lemma rng_state_range:
  assumes "0 < s" and "s < 2147483647"
  shows "0 < rng_state s m \<and> rng_state s m < 2147483647"
proof (induction m)
  case 0
  then show ?case using assms by (simp add: rng_state_def)
next
  case (Suc m)
  then show ?case
    using rng_next_range[of "rng_state s m"] by (simp add: rng_state_def rng_step_def)
qed

lemma pointsLoop_closed_form:
  "pointsLoop n j s pts =
     pts @ map (\<lambda>i. \<lparr>angle = (real i / real n) * pi * 2,
                      radius = 0.6 + snd (rng_next (rng_state s (i - j))) * 0.4\<rparr>) [j..<n]"
proof (induction n j s pts rule: pointsLoop.induct)
  case (1 n j s pts)
  show ?case
  proof (cases "j < n")
    case False
    then show ?thesis by (subst pointsLoop.simps) simp
  next
    case True
    obtain s' r where sr: "rng_next s = (s', r)" by (cases "rng_next s")
    have shift: "rng_state s' (i - Suc j) = rng_state s (i - j)" if "Suc j \<le> i" for i
    proof -
      have "i - j = Suc (i - Suc j)" using that by simp
      moreover have "rng_step s = s'" using sr by (simp add: rng_step_def)
      ultimately show ?thesis
        by (simp add: rng_state_def funpow_swap1)
    qed
    have "pointsLoop n j s pts =
        pointsLoop n (Suc j) s' (pts @ [\<lparr>angle = (real j / real n) * pi * 2,
                                        radius = 0.6 + r * 0.4\<rparr>])"
      by (subst pointsLoop.simps) (simp add: True sr)
    also have "\<dots> = (pts @ [\<lparr>angle = (real j / real n) * pi * 2, radius = 0.6 + r * 0.4\<rparr>])
        @ map (\<lambda>i. \<lparr>angle = (real i / real n) * pi * 2,
                      radius = 0.6 + snd (rng_next (rng_state s' (i - Suc j))) * 0.4\<rparr>) [Suc j..<n]"
      using "1.IH"[OF True sr[symmetric] refl] by simp
    also have "\<dots> = pts @ map (\<lambda>i. \<lparr>angle = (real i / real n) * pi * 2,
                      radius = 0.6 + snd (rng_next (rng_state s (i - j))) * 0.4\<rparr>) [j..<n]"
      using True by (simp add: upt_conv_Cons[of j n] shift sr)
    finally show ?thesis .
  qed
qed

lemma buildRandomBlobPoints_closed_form:
  "buildRandomBlobPoints layerIndex =
     map (\<lambda>j. \<lparr>angle = (real j / real (nat (5 + \<lfloor>snd (rng_next (layerIndex * 7919 + 1301)) * 4\<rfloor>)))
                           * pi * 2,
                   radius = 0.6 + snd (rng_next (rng_state (rng_step (layerIndex * 7919 + 1301)) j)) * 0.4\<rparr>)
       [0..<nat (5 + \<lfloor>snd (rng_next (layerIndex * 7919 + 1301)) * 4\<rfloor>)]"
  by (simp add: buildRandomBlobPoints_def seededRandom_def pointsLoop_closed_form rng_step_def
        Let_def split: prod.splits)

lemma upt_0_6: "[0..<6] = [0, 1, 2, 3, 4, 5]"
  by code_simp

lemma BLOB_POINTS_lengths: "map length BLOB_POINTS = [5, 5, 5, 5, 6, 6]"
  by (simp add: BLOB_POINTS_def upt_0_6 buildRandomBlobPoints_closed_form rng_next_def)

text \<open>
  Claim C7. The outline is a function of the layer index alone: the generator state is
  created from the seed inside each call, so the precomputed table holds, for each of the
  six slots, exactly what a fresh call returns. For every index whose seed
  \<open>7919 i + 1301\<close> is below the modulus 2147483647 (every index up to 271180, so every
  layer slot) the outline has between 5 and 8 points, the point \<open>j\<close> of \<open>n\<close> has the
  angle \<open>(j / n) 2\<pi>\<close>, and every radius fraction lies in [0.6, 1.0].
\<close>

theorem blob_outline_shape:
  assumes "layerIndex * 7919 + 1301 < 2147483647"
  shows "5 \<le> length (buildRandomBlobPoints layerIndex)
         \<and> length (buildRandomBlobPoints layerIndex) \<le> 8
         \<and> (\<forall>j<length (buildRandomBlobPoints layerIndex).
               angle (buildRandomBlobPoints layerIndex ! j)
                 = (real j / real (length (buildRandomBlobPoints layerIndex))) * pi * 2
               \<and> 0.6 \<le> radius (buildRandomBlobPoints layerIndex ! j)
               \<and> radius (buildRandomBlobPoints layerIndex ! j) \<le> 1.0)
         \<and> (layerIndex < 6 \<longrightarrow> BLOB_POINTS ! layerIndex = buildRandomBlobPoints layerIndex)"
proof -
  define seed where "seed = layerIndex * 7919 + 1301"
  define r where "r = snd (rng_next seed)"
  define n where "n = nat (5 + \<lfloor>r * 4\<rfloor>)"
  have seed: "0 < seed" "seed < 2147483647"
    using assms by (simp_all add: seed_def)
  have r: "0 \<le> r" "r < 1"
    using rng_next_range[OF seed] by (simp_all add: r_def)
  have s1: "0 < rng_step seed" "rng_step seed < 2147483647"
    using rng_next_range[OF seed] by (simp_all add: rng_step_def)
  have f0: "0 \<le> \<lfloor>r * 4\<rfloor>"
    using r by simp
  have f1: "\<lfloor>r * 4\<rfloor> < 4"
    using r by (simp add: floor_less_iff)
  have n: "5 \<le> n" "n \<le> 8"
    unfolding n_def using f0 f1 by linarith+
  have len: "length (buildRandomBlobPoints layerIndex) = n"
    by (simp add: buildRandomBlobPoints_closed_form n_def r_def seed_def)
  have pt: "buildRandomBlobPoints layerIndex ! j =
      \<lparr>angle = (real j / real n) * pi * 2,
       radius = 0.6 + snd (rng_next (rng_state (rng_step seed) j)) * 0.4\<rparr>" if "j < n" for j
    using that by (simp add: buildRandomBlobPoints_closed_form n_def r_def seed_def)
  have rad: "0.6 \<le> 0.6 + snd (rng_next (rng_state (rng_step seed) j)) * 0.4"
            "0.6 + snd (rng_next (rng_state (rng_step seed) j)) * 0.4 \<le> 1.0" for j
    using rng_next_range[of "rng_state (rng_step seed) j"] rng_state_range[OF s1, of j]
    by simp_all
  have tab: "BLOB_POINTS ! layerIndex = buildRandomBlobPoints layerIndex" if "layerIndex < 6"
    using that by (simp add: BLOB_POINTS_def)
  show ?thesis
    using n rad tab by (simp add: len pt)
qed

theorem blob_outline_shape_witness:
  "(3::nat) * 7919 + 1301 < 2147483647
   \<and> 5 \<le> length (buildRandomBlobPoints 3) \<and> length (buildRandomBlobPoints 3) \<le> 8
   \<and> angle (buildRandomBlobPoints 3 ! 2) = (2 / real (length (buildRandomBlobPoints 3))) * pi * 2
   \<and> 0.6 \<le> radius (buildRandomBlobPoints 3 ! 2) \<and> radius (buildRandomBlobPoints 3 ! 2) \<le> 1.0
   \<and> BLOB_POINTS ! 3 = buildRandomBlobPoints 3"
  using blob_outline_shape [of 3] by force

section \<open>The circle\<close>

lemma drawCircle_explicit:
  "drawCircle c cx cy blobRadius color opacity =
     c\<lparr>drawn := drawn c @
        [(FillRect (cx - blobRadius) (cy - blobRadius) (blobRadius * 2) (blobRadius * 2),
          (globalCompositeOperation c,
           Gradient \<lparr>x0 = cx, y0 = cy, r0 = 0, x1 = cx, y1 = cy, r1 = blobRadius,
                     stops = [(0, color), (0.55, color @ ''40''), (1, ''transparent'')]\<rparr>,
           opacity, transform c))]\<rparr>"
  by (simp add: drawCircle_def canvas_defs)

lemma cssAlpha_suffix_40:
  assumes "isHexColor color"
  shows "cssAlpha color = Some 1" and "cssAlpha (color @ ''40'') = Some (64 / 255)"
proof -
  have len: "length color = 7" and h: "hd color = CHR ''#''" and d: "list_all isHex (tl color)"
    using assms by (simp_all add: isHexColor_def)
  have ne: "color \<noteq> []" using len by auto
  have nt: "color \<noteq> ''transparent''" "color @ ''40'' \<noteq> ''transparent''"
    using len by auto
  show "cssAlpha color = Some 1"
    using len h d nt by (simp add: cssAlpha_def)
  have "length (color @ ''40'') = 9" using len by simp
  moreover have "hd (color @ ''40'') = CHR ''#''" using ne h by simp
  moreover have "list_all isHex (tl (color @ ''40''))"
    using ne d by (simp add: isHex_def hexValue_def)
  moreover have "(color @ ''40'') ! 7 = CHR ''4''" "(color @ ''40'') ! 8 = CHR ''0''"
    using len by (simp_all add: nth_append)
  ultimately show "cssAlpha (color @ ''40'') = Some (64 / 255)"
    using nt(2) by (simp add: cssAlpha_def hexValue_def)
qed

text \<open>
  Claim C8, as the code has it. \<open>drawCircle\<close> performs one operation and leaves the rest
  of the context as it was: it fills the square of side \<open>2 blobRadius\<close> centred at the
  centre, with \<open>opacity\<close> as alpha, with a radial gradient from radius 0 to \<open>blobRadius\<close>
  around the centre whose stops are the colour at 0, the colour string with \<open>40\<close> appended
  at 0.55, and \<open>transparent\<close> at 1. For a colour \<open>#rrggbb\<close> the middle stop is that colour
  with alpha 64/255 (the hexadecimal byte 40, about 25 percent), not 40 percent.
\<close>

theorem drawCircle_gradient_square:
  "drawCircle c cx cy blobRadius color opacity =
     c\<lparr>drawn := drawn c @
        [(FillRect (cx - blobRadius) (cy - blobRadius) (blobRadius * 2) (blobRadius * 2),
          (globalCompositeOperation c,
           Gradient \<lparr>x0 = cx, y0 = cy, r0 = 0, x1 = cx, y1 = cy, r1 = blobRadius,
                     stops = [(0, color), (0.55, color @ ''40''), (1, ''transparent'')]\<rparr>,
           opacity, transform c))]\<rparr>
   \<and> cssAlpha ''transparent'' = Some 0
   \<and> (isHexColor color \<longrightarrow>
        cssAlpha color = Some 1 \<and> cssAlpha (color @ ''40'') = Some (64 / 255))"
  using cssAlpha_suffix_40[of color]
  by (simp add: drawCircle_explicit) (simp add: cssAlpha_def)

theorem drawCircle_gradient_square_witness:
  "isHexColor ''#7c7cff''
   \<and> cssAlpha ''#7c7cff'' = Some 1
   \<and> cssAlpha (''#7c7cff'' @ ''40'') = Some (64 / 255)
   \<and> drawn (drawCircle newContext 960 540 400 ''#7c7cff'' 0.75)
       = [(FillRect 560 140 800 800,
           (''source-over'',
            Gradient \<lparr>x0 = 960, y0 = 540, r0 = 0, x1 = 960, y1 = 540, r1 = 400,
                      stops = [(0, ''#7c7cff''), (0.55, ''#7c7cff40''), (1, ''transparent'')]\<rparr>,
            0.75, (1, 0, 0, 1, 0, 0)))]"
proof -
  have hex: "isHexColor ''#7c7cff''"
    by (simp add: isHexColor_def isHex_def hexValue_def)
  show ?thesis
    using hex drawCircle_gradient_square [of newContext 960 540 400 "''#7c7cff''" "0.75"]
    by (simp add: newContext_def)
qed

text \<open>
  The claim as stated (a 40 percent alpha variant at 55 percent of the radius) fails:
  for the default colour of the first layer the middle stop is \<open>#7c7cff40\<close>, whose alpha
  is 64/255.
\<close>

theorem drawCircle_middle_stop_counterexample:
  "drawn (drawCircle newContext 960 540 400 ''#7c7cff'' 0.75)
     = [(FillRect 560 140 800 800,
         (''source-over'',
          Gradient \<lparr>x0 = 960, y0 = 540, r0 = 0, x1 = 960, y1 = 540, r1 = 400,
                    stops = [(0, ''#7c7cff''), (0.55, ''#7c7cff40''), (1, ''transparent'')]\<rparr>,
          0.75, (1, 0, 0, 1, 0, 0)))]
   \<and> cssAlpha ''#7c7cff40'' = Some (64 / 255)
   \<and> cssAlpha ''#7c7cff40'' \<noteq> Some 0.4"
proof -
  have "cssAlpha ''#7c7cff40'' = Some (64 / 255)"
    by (simp add: cssAlpha_def isHex_def hexValue_def)
  then show ?thesis
    by (simp add: drawCircle_explicit newContext_def)
qed

section \<open>The frame sequence of an export\<close>

lemma frameSteps_append [simp]: "frameSteps (a @ b) = frameSteps a @ frameSteps b"
  by (simp add: frameSteps_def)

lemma cleanups_append [simp]: "cleanups (a @ b) = cleanups a @ cleanups b"
  by (simp add: cleanups_def)

lemma frameSteps_Nil [simp]: "frameSteps [] = []"
  by (simp add: frameSteps_def)

lemma cleanups_Nil [simp]: "cleanups [] = []"
  by (simp add: cleanups_def)

lemma frameSteps_Cons [simp]: "frameSteps (e # es) = frameStep e @ frameSteps es"
  by (simp add: frameSteps_def)

lemma cleanups_Cons [simp]: "cleanups (e # es) = cleanupStep e @ cleanups es"
  by (simp add: cleanups_def)

text \<open>What \<open>renderFrame\<close> draws and what it leaves, on any context.\<close>

lemma renderFrame_on_context:
  "drawn (renderFrame r time c width height)
     = drawn c @ drawn (renderFrame r time (surface (globalAlpha c) (transform c)) width height)"
  "globalAlpha (renderFrame r time c width height) = globalAlpha c"
  "transform (renderFrame r time c width height) = transform c"
  "stack (renderFrame r time c width height) = stack c"
proof -
  define F where "F = (FillRect 0 0 (or_number width (rectWidth r)) (or_number height (rectHeight r)),
          (''source-over'', Color (bgColor (settings r)), globalAlpha c, transform c))
         # layerOps r time width height (transform c)"
  obtain p where 1: "renderFrame r time c width height =
     c\<lparr>globalCompositeOperation := ''source-over'', fillStyle := Color (bgColor (settings r)),
       path := p, drawn := drawn c @ F\<rparr>"
    using renderFrame_explicit[of r time c width height] unfolding F_def by blast
  obtain q where 2: "renderFrame r time (surface (globalAlpha c) (transform c)) width height =
     (surface (globalAlpha c) (transform c))\<lparr>globalCompositeOperation := ''source-over'',
       fillStyle := Color (bgColor (settings r)), path := q, drawn := F\<rparr>"
    using renderFrame_explicit[of r time "surface (globalAlpha c) (transform c)" width height]
    unfolding F_def by (auto simp: surface_def newContext_def)
  show "drawn (renderFrame r time c width height)
     = drawn c @ drawn (renderFrame r time (surface (globalAlpha c) (transform c)) width height)"
    by (simp add: 1 2)
  show "globalAlpha (renderFrame r time c width height) = globalAlpha c"
    "transform (renderFrame r time c width height) = transform c"
    "stack (renderFrame r time c width height) = stack c"
    by (simp_all add: 1)
qed

lemma renderFrame_ignores_session: "renderFrame (r\<lparr>export := x\<rparr>) = renderFrame r"
  by (rule ext)+ (simp add: renderFrame_def)

lemma frameDrawing_ignores_canvas [simp]:
  "frameDrawing (r\<lparr>export := x\<rparr>) (e\<lparr>srcCtx := c\<rparr>) t = frameDrawing r e t"
  by (simp add: frameDrawing_def renderFrame_ignores_session)

text \<open>One export frame on a source canvas that is clean.\<close>

lemma renderExportFrame_closed:
  assumes "export r = Some e" and "cleanCtx (srcCtx e)"
  shows "\<exists>c'. renderExportFrame r t =
            Some (r\<lparr>export := Some (e\<lparr>srcCtx := c'\<rparr>)\<rparr>,
                  \<lparr>outWidth = exportWidth e, outHeight = exportHeight e,
                   filterBlur = blurPx e,
                   imageX = - real_of_int (pad e), imageY = - real_of_int (pad e),
                   image = drawn (srcCtx e) @ frameDrawing r e t\<rparr>)
          \<and> cleanCtx c' \<and> drawn c' = drawn (srcCtx e) @ frameDrawing r e t"
proof -
  define c where "c = srcCtx e"
  define c2 where "c2 = fillRect 0 0 (srcWidth e) (srcHeight e)
      (c\<lparr>fillStyle := Color (bgColor (settings r))\<rparr>)"
  define c4 where "c4 = translate (real_of_int (pad e)) (real_of_int (pad e)) (save c2)"
  define c5 where "c5 = renderFrame r t c4 (Some (exportWidth e)) (Some (exportHeight e))"
  define c6 where "c6 = restore c5"
  have cl: "globalCompositeOperation c = ''source-over''" "globalAlpha c = 1"
    "transform c = (1, 0, 0, 1, 0, 0)" "stack c = []"
    using assms(2) by (simp_all add: cleanCtx_def c_def)
  have c2: "drawn c2 = drawn c @ [(FillRect 0 0 (srcWidth e) (srcHeight e),
      (''source-over'', Color (bgColor (settings r)), 1, (1, 0, 0, 1, 0, 0)))]"
    by (simp add: c2_def fillRect_def state_of_def cl)
  have c4: "drawn c4 = drawn c2" "globalAlpha c4 = 1"
    "transform c4 = (1, 0, 0, 1, real_of_int (pad e), real_of_int (pad e))"
    "stack c4 = [(''source-over'', Color (bgColor (settings r)), 1, (1, 0, 0, 1, 0, 0))]"
    by (simp_all add: c4_def c2_def translate_def save_def fillRect_def state_of_def cl)
  have c5: "drawn c5 = drawn c4 @ drawn (renderFrame r t
        (surface 1 (1, 0, 0, 1, real_of_int (pad e), real_of_int (pad e)))
        (Some (exportWidth e)) (Some (exportHeight e)))"
    "stack c5 = [(''source-over'', Color (bgColor (settings r)), 1, (1, 0, 0, 1, 0, 0))]"
    using renderFrame_on_context[of r t c4 "Some (exportWidth e)" "Some (exportHeight e)"]
    by (simp_all add: c5_def c4)
  have c6: "cleanCtx c6" "drawn c6 = drawn c5"
    by (simp_all add: c6_def restore_def c5 cleanCtx_def)
  have d: "drawn c6 = drawn (srcCtx e) @ frameDrawing r e t"
    by (simp add: c6 c5 c4 c2 frameDrawing_def c_def)
  have "renderExportFrame r t =
            Some (r\<lparr>export := Some (e\<lparr>srcCtx := c6\<rparr>)\<rparr>,
                  \<lparr>outWidth = exportWidth e, outHeight = exportHeight e,
                   filterBlur = blurPx e,
                   imageX = - real_of_int (pad e), imageY = - real_of_int (pad e),
                   image = drawn c6\<rparr>)"
    by (simp add: renderExportFrame_def assms(1) Let_def c6_def c5_def c4_def c2_def c_def)
  then show ?thesis
    using c6(1) d by auto
qed

text \<open>
  The frame loop from the index \<open>i\<close> on, when every frame is accepted: the source canvas
  holds the drawing \<open>D\<close> of the frames before \<open>i\<close>.
\<close>

lemma frameLoop_steps:
  assumes "the_renderer st = r\<lparr>export := Some (e\<lparr>srcCtx := c\<rparr>)\<rparr>"
    and "cleanCtx c"
    and "\<forall>k. i \<le> k \<and> k < n \<longrightarrow> blob_ok enc k \<and> writeFile_error enc k = None"
  shows "\<exists>st'. frameLoop enc f n i st = Inr st'
           \<and> frameSteps (events st') = frameSteps (events st) @
                concat (map (\<lambda>k. [Rendered ((real k / real f) * 1000),
                     Submitted (frameName k)
                       \<lparr>outWidth = exportWidth e, outHeight = exportHeight e,
                        filterBlur = blurPx e,
                        imageX = - real_of_int (pad e), imageY = - real_of_int (pad e),
                        image = drawn c @ concat (map (\<lambda>j. frameDrawing r e ((real j / real f) * 1000))
                                          [i..<Suc k])\<rparr>])
                          [i..<n])
           \<and> cleanups (events st') = cleanups (events st)"
  using assms
proof (induction "n - i" arbitrary: i st c)
  case 0
  from "0.hyps" have "\<not> i < n" by simp
  then show ?case by (subst frameLoop.simps) simp
next
  case (Suc m)
  from Suc.hyps(2) have less: "i < n" and m: "m = n - (i + 1)" by simp_all
  define t where "t = (real i / real f) * 1000"
  define r0 where "r0 = r\<lparr>export := Some (e\<lparr>srcCtx := c\<rparr>)\<rparr>"
  have ex: "export r0 = Some (e\<lparr>srcCtx := c\<rparr>)" "cleanCtx (srcCtx (e\<lparr>srcCtx := c\<rparr>))"
    using Suc.prems(2) by (simp_all add: r0_def)
  obtain c' where rf: "renderExportFrame r0 t =
            Some (r0\<lparr>export := Some (e\<lparr>srcCtx := c, srcCtx := c'\<rparr>)\<rparr>,
                  \<lparr>outWidth = exportWidth e, outHeight = exportHeight e,
                   filterBlur = blurPx e,
                   imageX = - real_of_int (pad e), imageY = - real_of_int (pad e),
                   image = drawn c @ frameDrawing r e t\<rparr>)"
    and c': "cleanCtx c'" "drawn c' = drawn c @ frameDrawing r e t"
    using renderExportFrame_closed[OF ex, of t] by (auto simp: r0_def)
  define fr where "fr = \<lparr>outWidth = exportWidth e, outHeight = exportHeight e,
                   filterBlur = blurPx e,
                   imageX = - real_of_int (pad e), imageY = - real_of_int (pad e),
                   image = drawn c @ frameDrawing r e t\<rparr>"
  define r1 where "r1 = r0\<lparr>export := Some (e\<lparr>srcCtx := c, srcCtx := c'\<rparr>)\<rparr>"
  have rf': "renderExportFrame (the_renderer st) ((real i / real f) * 1000) = Some (r1, fr)"
    using rf by (simp add: Suc.prems(1) r0_def r1_def fr_def t_def)
  have ok: "blob_ok enc i" "writeFile_error enc i = None"
    using Suc.prems(3) less by simp_all
  define st3 where "st3 = await (WriteFile (frameName i) fr)
      (await ArrayBuffer (await CanvasToBlob (emit (RenderExportFrame ((real i / real f) * 1000))
         (st\<lparr>the_renderer := r1\<rparr>))))"
  define st4 where "st4 = updateProgress (i + 1) n
      (''Rendering frame '' @ String_nat (i + 1) @ '' / '' @ String_nat n) st3"
  have unf: "frameLoop enc f n i st = frameLoop enc f n (i + 1) st4"
    by (subst frameLoop.simps)
       (simp only: less if_True Let_def rf' option.case prod.case ok not_True_eq_False
          if_False st3_def st4_def)
  have r4: "the_renderer st4 = r\<lparr>export := Some (e\<lparr>srcCtx := c'\<rparr>)\<rparr>"
    by (simp add: st4_def st3_def r1_def r0_def)
  have ok4: "\<forall>k. i + 1 \<le> k \<and> k < n \<longrightarrow> blob_ok enc k \<and> writeFile_error enc k = None"
    using Suc.prems(3) by simp
  obtain st' where st': "frameLoop enc f n (i + 1) st4 = Inr st'"
    "frameSteps (events st') = frameSteps (events st4) @
                concat (map (\<lambda>k. [Rendered ((real k / real f) * 1000),
                     Submitted (frameName k)
                       \<lparr>outWidth = exportWidth e, outHeight = exportHeight e,
                        filterBlur = blurPx e,
                        imageX = - real_of_int (pad e), imageY = - real_of_int (pad e),
                        image = drawn c' @ concat (map (\<lambda>j. frameDrawing r e ((real j / real f) * 1000))
                                          [i + 1..<Suc k])\<rparr>])
                          [i + 1..<n])"
    "cleanups (events st') = cleanups (events st4)"
    using Suc.hyps(1)[OF m r4 c'(1) ok4] by blast
  have s4: "frameSteps (events st4) = frameSteps (events st)
       @ [Rendered ((real i / real f) * 1000), Submitted (frameName i) fr]"
    by (simp add: st4_def st3_def frameStep_def)
  have c4: "cleanups (events st4) = cleanups (events st)"
    by (simp add: st4_def st3_def cleanupStep_def)
  have img: "drawn c' @ concat (map (\<lambda>j. frameDrawing r e ((real j / real f) * 1000)) [i + 1..<Suc k])
      = drawn c @ concat (map (\<lambda>j. frameDrawing r e ((real j / real f) * 1000)) [i..<Suc k])"
    if "i + 1 \<le> k" for k
  proof -
    have "[i..<Suc k] = i # [i + 1..<Suc k]"
      using that by (simp add: upt_conv_Cons)
    then show ?thesis by (simp add: c'(2) t_def)
  qed
  have first: "fr = \<lparr>outWidth = exportWidth e, outHeight = exportHeight e,
                        filterBlur = blurPx e,
                        imageX = - real_of_int (pad e), imageY = - real_of_int (pad e),
                        image = drawn c @ concat (map (\<lambda>j. frameDrawing r e ((real j / real f) * 1000))
                                          [i..<Suc i])\<rparr>"
    by (simp add: fr_def t_def)
  have rest: "map (\<lambda>k. [Rendered ((real k / real f) * 1000),
                     Submitted (frameName k)
                       \<lparr>outWidth = exportWidth e, outHeight = exportHeight e,
                        filterBlur = blurPx e,
                        imageX = - real_of_int (pad e), imageY = - real_of_int (pad e),
                        image = drawn c' @ concat (map (\<lambda>j. frameDrawing r e ((real j / real f) * 1000))
                                          [i + 1..<Suc k])\<rparr>]) [i + 1..<n]
      = map (\<lambda>k. [Rendered ((real k / real f) * 1000),
                     Submitted (frameName k)
                       \<lparr>outWidth = exportWidth e, outHeight = exportHeight e,
                        filterBlur = blurPx e,
                        imageX = - real_of_int (pad e), imageY = - real_of_int (pad e),
                        image = drawn c @ concat (map (\<lambda>j. frameDrawing r e ((real j / real f) * 1000))
                                          [i..<Suc k])\<rparr>]) [i + 1..<n]"
  proof (rule map_cong[OF refl])
    fix k assume "k \<in> set [i + 1..<n]"
    then have "i + 1 \<le> k" by simp
    from img[OF this] show "[Rendered ((real k / real f) * 1000),
                     Submitted (frameName k)
                       \<lparr>outWidth = exportWidth e, outHeight = exportHeight e,
                        filterBlur = blurPx e,
                        imageX = - real_of_int (pad e), imageY = - real_of_int (pad e),
                        image = drawn c' @ concat (map (\<lambda>j. frameDrawing r e ((real j / real f) * 1000))
                                          [i + 1..<Suc k])\<rparr>]
      = [Rendered ((real k / real f) * 1000),
                     Submitted (frameName k)
                       \<lparr>outWidth = exportWidth e, outHeight = exportHeight e,
                        filterBlur = blurPx e,
                        imageX = - real_of_int (pad e), imageY = - real_of_int (pad e),
                        image = drawn c @ concat (map (\<lambda>j. frameDrawing r e ((real j / real f) * 1000))
                                          [i..<Suc k])\<rparr>]"
      by (simp only:)
  qed
  have split: "[i..<n] = i # [i + 1..<n]"
    using less by (simp add: upt_conv_Cons)
  show ?case
    unfolding unf split
    by (rule exI[of _ st']) (simp only: st' s4 c4 rest first list.map concat.simps append.simps append_assoc simp_thms)
qed

lemma deleteLoop_steps:
  "frameSteps (events (deleteLoop n i st)) = frameSteps (events st)
   \<and> cleanups (events (deleteLoop n i st))
       = cleanups (events st) @ map (\<lambda>k. DeleteFile (frameName k)) [i..<n]"
proof (induction "n - i" arbitrary: i st)
  case 0
  from "0.hyps" have "\<not> i < n" by simp
  then show ?case by (subst (1 2) deleteLoop.simps) simp
next
  case (Suc m)
  from Suc.hyps(2) have less: "i < n" and m: "m = n - (i + 1)" by simp_all
  have unf: "deleteLoop n i st = deleteLoop n (i + 1) (await (DeleteFile (frameName i)) st)"
    by (subst deleteLoop.simps) (simp only: less if_True)
  show ?case
    using Suc.hyps(1)[OF m, of "await (DeleteFile (frameName i)) st"] less
    by (simp add: unf frameStep_def cleanupStep_def upt_conv_Cons[of i n])
qed

text \<open>The session \<open>initExport\<close> prepares: a fresh source canvas, and nothing else changes.\<close>

lemma initExport_session:
  "\<exists>e. export (initExport r w h) = Some e"
  by (simp add: initExport_def Let_def)

lemma initExport_fresh:
  assumes "export (initExport r w h) = Some e"
  shows "initExport r w h = r\<lparr>export := Some (e\<lparr>srcCtx := newContext\<rparr>)\<rparr>"
    and "exportWidth e = w" and "exportHeight e = h"
  using assms by (auto simp: initExport_def Let_def)

lemma newContext_clean: "cleanCtx newContext" "drawn newContext = []"
  by (simp_all add: cleanCtx_def newContext_def)

lemma loadEncoder_ok:
  assumes "load_error enc = None"
  shows "\<exists>st'. loadEncoder enc n st = Inr st'
           \<and> the_renderer st' = the_renderer st
           \<and> frameSteps (events st') = frameSteps (events st)
           \<and> cleanups (events st') = cleanups (events st)"
  using assms by (simp add: loadEncoder_def Let_def frameStep_def cleanupStep_def)

lemma renderFrames_ok:
  assumes "\<forall>k<n. blob_ok enc k \<and> writeFile_error enc k = None"
    and "export (initExport (the_renderer st) (resolutionWidth form) (resolutionHeight form))
           = Some e"
  shows "\<exists>st'. renderFrames enc form n st = Inr st'
           \<and> frameSteps (events st') = frameSteps (events st) @
                concat (map (\<lambda>k. [Rendered (1000 * real k / real (fps form)),
                                    Submitted (frameName k)
                                      (submittedFrame (the_renderer st) e (fps form) k)])
                          [0..<n])
           \<and> cleanups (events st') = cleanups (events st)"
proof -
  define r where "r = the_renderer st"
  define st2 where "st2 = emit (InitExport (resolutionWidth form) (resolutionHeight form))
      ((updateProgress 0 n ''Rendering frames...'' st)
         \<lparr>the_renderer := initExport (the_renderer (updateProgress 0 n ''Rendering frames...'' st))
             (resolutionWidth form) (resolutionHeight form)\<rparr>)"
  have r2: "the_renderer st2 = r\<lparr>export := Some (e\<lparr>srcCtx := newContext\<rparr>)\<rparr>"
    using initExport_fresh(1)[OF assms(2)] by (simp add: st2_def r_def)
  have ok: "\<forall>k. 0 \<le> k \<and> k < n \<longrightarrow> blob_ok enc k \<and> writeFile_error enc k = None"
    using assms(1) by simp
  obtain st' where st': "frameLoop enc (fps form) n 0 st2 = Inr st'"
    "frameSteps (events st') = frameSteps (events st2) @
       concat (map (\<lambda>k. [Rendered ((real k / real (fps form)) * 1000),
                     Submitted (frameName k)
                       \<lparr>outWidth = exportWidth e, outHeight = exportHeight e,
                        filterBlur = blurPx e,
                        imageX = - real_of_int (pad e), imageY = - real_of_int (pad e),
                        image = drawn newContext
                          @ concat (map (\<lambda>j. frameDrawing r e ((real j / real (fps form)) * 1000))
                                          [0..<Suc k])\<rparr>])
                 [0..<n])"
    "cleanups (events st') = cleanups (events st2)"
    using frameLoop_steps[OF r2 newContext_clean(1) ok, of "fps form"] by blast
  have same: "[Rendered ((real k / real (fps form)) * 1000),
                     Submitted (frameName k)
                       \<lparr>outWidth = exportWidth e, outHeight = exportHeight e,
                        filterBlur = blurPx e,
                        imageX = - real_of_int (pad e), imageY = - real_of_int (pad e),
                        image = drawn newContext
                          @ concat (map (\<lambda>j. frameDrawing r e ((real j / real (fps form)) * 1000))
                                          [0..<Suc k])\<rparr>]
      = [Rendered (1000 * real k / real (fps form)),
         Submitted (frameName k) (submittedFrame r e (fps form) k)]" for k
    by (simp add: submittedFrame_def newContext_clean(2) mult.commute)
  have s2: "frameSteps (events st2) = frameSteps (events st)"
    "cleanups (events st2) = cleanups (events st)"
    by (simp_all add: st2_def frameStep_def cleanupStep_def)
  have run: "renderFrames enc form n st = frameLoop enc (fps form) n 0 st2"
    by (simp add: renderFrames_def Let_def st2_def)
  show ?thesis
    unfolding run r_def[symmetric]
    by (rule exI[of _ st']) (simp only: st' same s2 simp_thms)
qed

lemma encodeAndDownload_steps:
  "frameSteps (events (reached (encodeAndDownload enc form n st))) = frameSteps (events st)"
  by (simp add: encodeAndDownload_def Let_def frameStep_def deleteLoop_steps
        split: sum.splits option.splits)

lemma encodeAndDownload_thrown:
  assumes "encodeAndDownload enc form n st = Inl (msg, st')"
  shows "cleanups (events st') = cleanups (events st)"
  using assms
  by (auto simp: encodeAndDownload_def Let_def cleanupStep_def
        split: sum.splits option.splits if_splits)

lemma encodeAndDownload_exit_code:
  assumes "exec_result enc = Inr exitCode" and "exitCode \<noteq> 0"
  shows "\<exists>st'. encodeAndDownload enc form n st
           = Inl (''ffmpeg exited with code '' @ String_int exitCode, st')"
  using assms by (simp add: encodeAndDownload_def Let_def)

lemma tryBlock_frames:
  assumes "load_error enc = None"
    and "\<forall>k<fps form * duration form. blob_ok enc k \<and> writeFile_error enc k = None"
    and "export (initExport (the_renderer st) (resolutionWidth form) (resolutionHeight form))
           = Some e"
  shows "\<exists>st6. tryBlock enc form st = encodeAndDownload enc form (fps form * duration form) st6
           \<and> frameSteps (events st6) = frameSteps (events st) @
                concat (map (\<lambda>k. [Rendered (1000 * real k / real (fps form)),
                                    Submitted (frameName k)
                                      (submittedFrame (the_renderer st) e (fps form) k)])
                          [0..<fps form * duration form])
           \<and> cleanups (events st6) = cleanups (events st)"
proof -
  define n where "n = fps form * duration form"
  obtain st3 where l: "loadEncoder enc n st = Inr st3" "the_renderer st3 = the_renderer st"
    "frameSteps (events st3) = frameSteps (events st)" "cleanups (events st3) = cleanups (events st)"
    using loadEncoder_ok[OF assms(1), of n st] by blast
  have ok: "\<forall>k<n. blob_ok enc k \<and> writeFile_error enc k = None"
    using assms(2) by (simp add: n_def)
  have e3: "export (initExport (the_renderer st3) (resolutionWidth form) (resolutionHeight form))
           = Some e"
    using assms(3) by (simp add: l(2))
  obtain st6 where r: "renderFrames enc form n st3 = Inr st6"
    "frameSteps (events st6) = frameSteps (events st3) @
       concat (map (\<lambda>k. [Rendered (1000 * real k / real (fps form)),
                                    Submitted (frameName k)
                                      (submittedFrame (the_renderer st3) e (fps form) k)])
                 [0..<n])"
    "cleanups (events st6) = cleanups (events st3)"
    using renderFrames_ok[OF ok e3] by blast
  have "tryBlock enc form st = encodeAndDownload enc form n st6"
    by (simp add: tryBlock_def Let_def andThen_def n_def[symmetric] l(1) r(1))
  then show ?thesis
    unfolding n_def[symmetric]
    by (intro exI[of _ st6]) (simp only: r l simp_thms)
qed

lemma enterExport_fields [simp]:
  "the_renderer (enterExport st) = the_renderer st"
  "events (enterExport st) = events st"
  "suspensions (enterExport st) = suspensions st"
  "isExporting (enterExport st)"
  by (simp_all add: enterExport_def)

lemma startExport_events:
  assumes "\<not> isExporting st"
  shows "frameSteps (events (startExport enc form st))
           = frameSteps (events (reached (tryBlock enc form (enterExport st))))"
    and "cleanups (events (startExport enc form st))
           = cleanups (events (reached (tryBlock enc form (enterExport st))))"
  using assms
  by (auto simp: startExport_def finallyBlock_def catchBlock_def Let_def frameStep_def
        cleanupStep_def reached_def split: sum.splits)

lemma digitValue_digit: "d < 10 \<Longrightarrow> digitValue (''0123456789'' ! d) = d"
proof -
  assume "d < 10"
  then have "d = 0 \<or> d = 1 \<or> d = 2 \<or> d = 3 \<or> d = 4 \<or> d = 5 \<or> d = 6
    \<or> d = 7 \<or> d = 8 \<or> d = 9"
    by arith
  then show ?thesis
    by (elim disjE) (simp_all add: digitValue_def hexValue_def)
qed

lemma decimalValue_snoc: "decimalValue (s @ [ch]) = 10 * decimalValue s + digitValue ch"
  by (simp add: decimalValue_def)

lemma decimalValue_String_nat: "decimalValue (String_nat n) = n"
proof (induction n rule: String_nat.induct)
  case (1 n)
  show ?case
  proof (cases "n < 10")
    case True
    then show ?thesis
      by (subst String_nat.simps) (simp add: decimalValue_def digitValue_digit)
  next
    case False
    then have "decimalValue (String_nat (n div 10)) = n div 10"
      using 1 by simp
    then show ?thesis
      using False
      by (subst String_nat.simps) (simp add: decimalValue_snoc digitValue_digit)
  qed
qed

lemma decimalValue_zeros: "decimalValue (replicate k (CHR ''0'') @ s) = decimalValue s"
proof -
  have z: "digitValue (CHR ''0'') = 0"
    by (simp add: digitValue_def hexValue_def)
  have "foldl (\<lambda>a ch. 10 * a + digitValue ch) 0 (replicate k (CHR ''0'')) = 0"
    by (induction k) (simp_all add: z)
  then show ?thesis
    by (simp add: decimalValue_def)
qed

lemma frameName_injective: "frameName i = frameName j \<Longrightarrow> i = j"
proof -
  assume "frameName i = frameName j"
  then have "padStart 5 (CHR ''0'') (String_nat i) = padStart 5 (CHR ''0'') (String_nat j)"
    by (simp add: frameName_def)
  then have "decimalValue (padStart 5 (CHR ''0'') (String_nat i))
      = decimalValue (padStart 5 (CHR ''0'') (String_nat j))"
    by simp
  then show "i = j"
    by (simp add: padStart_def decimalValue_zeros decimalValue_String_nat)
qed

lemma frameNames_distinct: "distinct (map frameName [0..<n])"
  by (simp add: distinct_map inj_on_def) (metis frameName_injective)



section \<open>A failed export\<close>

lemma String_int_1: "String_int 1 = ''1''"
  by (simp add: String_int_def String_nat.simps)

lemma frameLoop_cleanups [simp]:
  "cleanups (events (reached (frameLoop enc f n i st))) = cleanups (events st)"
proof (induction enc f n i st rule: frameLoop.induct)
  case (1 enc f n i st)
  show ?case
    by (subst frameLoop.simps)
       (use 1 in \<open>auto simp: Let_def cleanupStep_def split: option.splits prod.splits sum.splits\<close>)
qed

lemma loadEncoder_cleanups [simp]:
  "cleanups (events (reached (loadEncoder enc n st))) = cleanups (events st)"
  by (simp add: loadEncoder_def Let_def cleanupStep_def split: option.splits)

lemma renderFrames_cleanups [simp]:
  "cleanups (events (reached (renderFrames enc form n st))) = cleanups (events st)"
  by (simp add: renderFrames_def Let_def cleanupStep_def)

lemma tryBlock_thrown_no_cleanup:
  assumes "tryBlock enc form st = Inl (msg, st')"
  shows "cleanups (events st') = cleanups (events st)"
proof -
  define n where "n = fps form * duration form"
  show ?thesis
  proof (cases "loadEncoder enc n st")
    case (Inl err)
    then have "tryBlock enc form st = Inl err"
      by (simp add: tryBlock_def andThen_def n_def Let_def)
    then show ?thesis
      using assms loadEncoder_cleanups[of enc n st] Inl by auto
  next
    case l: (Inr st3)
    then have c3: "cleanups (events st3) = cleanups (events st)"
      using loadEncoder_cleanups[of enc n st] by simp
    show ?thesis
    proof (cases "renderFrames enc form n st3")
      case (Inl err)
      then have "tryBlock enc form st = Inl err"
        by (simp add: tryBlock_def andThen_def n_def[symmetric] Let_def l)
      then show ?thesis
        using assms renderFrames_cleanups[of enc form n st3] Inl c3 by auto
    next
      case r: (Inr st6)
      then have c6: "cleanups (events st6) = cleanups (events st3)"
        using renderFrames_cleanups[of enc form n st3] by simp
      have "tryBlock enc form st = encodeAndDownload enc form n st6"
        by (simp add: tryBlock_def andThen_def n_def[symmetric] Let_def l r)
      then show ?thesis
        using assms encodeAndDownload_thrown[of enc form n st6 msg st'] c6 c3 by simp
    qed
  qed
qed

lemma failed_export_never_cleans_up:
  assumes "\<not> isExporting st"
    and "tryBlock enc form (enterExport st) = Inl (msg, st')"
  shows "progressText (startExport enc form st) = ''Export failed: '' @ msg
         \<and> \<not> isExporting (startExport enc form st)
         \<and> cleanups (events (startExport enc form st)) = cleanups (events st)"
proof -
  have "startExport enc form st = finallyBlock (catchBlock msg st')"
    using assms by (simp add: startExport_def Let_def)
  moreover have "cleanups (events st') = cleanups (events st)"
    using tryBlock_thrown_no_cleanup[OF assms(2)] by simp
  ultimately show ?thesis
    by (simp add: finallyBlock_def catchBlock_def cleanupStep_def)
qed

lemma length_frame_pairs: "length (concat (map (\<lambda>k. [a k, b k]) [0..<n])) = 2 * n"
  by (induction n) simp_all

text \<open>
  Claim C5. With an encoder whose \<open>exec\<close> ends with code 1, the export of 150 frames ends
  with the message \<open>Export failed: ffmpeg exited with code 1\<close> on the progress line and
  the export flag reset, and \<open>startExport\<close> returns. But the 150 frames that were written
  are never deleted and the worker is never terminated: the deletions and \<open>terminate\<close>
  stand at the end of the \<open>try\<close> block, which a throw skips, and neither \<open>catch\<close> nor
  \<open>finally\<close> repeats them (\<open>failed_export_never_cleans_up\<close> for every failure).
\<close>

theorem failed_encode_skips_cleanup:
  "progressText (startExport failingEncoder sampleForm idlePage)
     = ''Export failed: ffmpeg exited with code 1''
   \<and> \<not> isExporting (startExport failingEncoder sampleForm idlePage)
   \<and> length (frameSteps (events (startExport failingEncoder sampleForm idlePage))) = 300
   \<and> cleanups (events (startExport failingEncoder sampleForm idlePage)) = []"
proof -
  define st1 where "st1 = enterExport idlePage"
  have enc: "load_error failingEncoder = None"
    "\<forall>k<fps sampleForm * duration sampleForm.
        blob_ok failingEncoder k \<and> writeFile_error failingEncoder k = None"
    "exec_result failingEncoder = Inr 1"
    by (simp_all add: failingEncoder_def workingEncoder_def)
  obtain e where e: "export (initExport (the_renderer st1) (resolutionWidth sampleForm)
      (resolutionHeight sampleForm)) = Some e"
    using initExport_session by blast
  obtain st6 where t: "tryBlock failingEncoder sampleForm st1
       = encodeAndDownload failingEncoder sampleForm (fps sampleForm * duration sampleForm) st6"
    "frameSteps (events st6) = frameSteps (events st1) @
        concat (map (\<lambda>k. [Rendered (1000 * real k / real (fps sampleForm)),
                            Submitted (frameName k)
                              (submittedFrame (the_renderer st1) e (fps sampleForm) k)])
                  [0..<fps sampleForm * duration sampleForm])"
    "cleanups (events st6) = cleanups (events st1)"
    using tryBlock_frames[OF enc(1,2) e] by blast
  obtain st' where thrown: "encodeAndDownload failingEncoder sampleForm
        (fps sampleForm * duration sampleForm) st6
      = Inl (''ffmpeg exited with code '' @ String_int 1, st')"
    using encodeAndDownload_exit_code[OF enc(3), of sampleForm _ st6] by auto
  have c: "cleanups (events st') = cleanups (events st6)"
    by (rule encodeAndDownload_thrown[OF thrown])
  have f: "frameSteps (events st') = frameSteps (events st6)"
    using encodeAndDownload_steps[of failingEncoder sampleForm
        "fps sampleForm * duration sampleForm" st6]
    by (simp add: thrown)
  have idle: "\<not> isExporting idlePage" "events st1 = []"
    by (simp_all add: idlePage_def st1_def)
  have run: "startExport failingEncoder sampleForm idlePage
      = finallyBlock (catchBlock (''ffmpeg exited with code '' @ String_int 1) st')"
    using idle(1) by (simp add: startExport_def Let_def st1_def[symmetric] t(1) thrown)
  have ev: "events (finallyBlock (catchBlock msg st'))
      = events st' @ [ConsoleError msg, HideProgressLater]" for msg
    by (simp add: finallyBlock_def catchBlock_def)
  have "progressText (finallyBlock (catchBlock (''ffmpeg exited with code '' @ String_int 1) st'))
      = ''Export failed: ffmpeg exited with code 1''"
    by (simp add: finallyBlock_def catchBlock_def String_int_1)
  moreover have "\<not> isExporting (finallyBlock (catchBlock msg st'))" for msg
    by (simp add: finallyBlock_def)
  moreover have "length (frameSteps (events (finallyBlock (catchBlock msg st'))))
      = 2 * (fps sampleForm * duration sampleForm)"
    for msg
    by (simp add: ev frameStep_def f t(2) idle(2) length_frame_pairs)
  moreover have "cleanups (events (finallyBlock (catchBlock msg st'))) = []" for msg
    by (simp add: ev cleanupStep_def c t(3) idle(2))
  moreover have "2 * (fps sampleForm * duration sampleForm) = 300"
    by (simp add: sampleForm_def)
  ultimately show ?thesis
    unfolding run by simp
qed

end
